theory Spec2Isabelle
  imports Main "HOL-Library.Word"
begin

section \<open>The mesh routing layer of winc\_p2p.c\<close>

text \<open>
  A shallow embedding of the mesh part of \<^verbatim>\<open>src/part2/winc_p2p.c\<close> and of the types and
  constants of \<^verbatim>\<open>src/part2/winc_p2p.h\<close>. The file-level \<^verbatim>\<open>static\<close> variables of
  winc\_p2p.c are one record, passed to every function and returned updated. What
  the C code reads from outside is a parameter of the function that reads it: each value
  returned by \<^verbatim>\<open>time_us_32()\<close> and each result of \<^verbatim>\<open>hif_put\<close>. The unused file descriptor
  \<^verbatim>\<open>fd\<close> is left out. Lines written by \<^verbatim>\<open>printf\<close> and \<^verbatim>\<open>dump_hex\<close> are appended to the
  field \<open>console\<close>.
\<close>

subsection \<open>Types and constants (winc\_p2p.h)\<close>

type_synonym u8 = "8 word"
type_synonym u16 = "16 word"
type_synonym u32 = "32 word"

definition P2P_MODE_IDLE :: u8 where [simp]: "P2P_MODE_IDLE = 0"
definition P2P_MODE_LISTEN :: u8 where [simp]: "P2P_MODE_LISTEN = 1"
definition P2P_MODE_SEARCH :: u8 where [simp]: "P2P_MODE_SEARCH = 2"
definition P2P_LISTEN_CHAN :: u8 where [simp]: "P2P_LISTEN_CHAN = 1"

definition MESH_MAX_NODES :: nat where [simp]: "MESH_MAX_NODES = 8"
definition MESH_MAX_HOPS :: nat where [simp]: "MESH_MAX_HOPS = 4"

text \<open>
  The two durations, in milliseconds. The code compares each with a difference of two
  \<^verbatim>\<open>uint32_t\<close> times, so C converts it to \<^verbatim>\<open>uint32_t\<close> and compares unsigned.
\<close>

definition MESH_BEACON_INTERVAL :: u32 where [simp]: "MESH_BEACON_INTERVAL = 5000"
definition MESH_ROUTE_TIMEOUT :: u32 where [simp]: "MESH_ROUTE_TIMEOUT = 30000"

definition MESH_MSG_BEACON :: u8 where [simp]: "MESH_MSG_BEACON = 1"
definition MESH_MSG_DATA :: u8 where [simp]: "MESH_MSG_DATA = 2"

text \<open>
  \<^verbatim>\<open>MESH_NODE\<close>. Two structs of the header share the field names \<^verbatim>\<open>hop_count\<close> and
  \<^verbatim>\<open>node_id\<close>; the packet header's field is \<open>pkt_hop_count\<close> and the beacon's is
  \<open>beacon_node_id\<close> here.
\<close>

record MESH_NODE =
  node_id :: u8
  mac_addr :: "u8 list"
  hop_count :: u8
  next_hop :: u8
  last_update :: u32
  is_active :: bool

text \<open>\<^verbatim>\<open>MESH_ROUTING_TABLE\<close>: \<open>nodes\<close> is the array of \<open>MESH_MAX_NODES\<close> slots.\<close>

record MESH_ROUTING_TABLE =
  nodes :: "MESH_NODE list"
  node_count :: u8
  local_node_id :: u8

record MESH_PKT_HDR =
  msg_type :: u8
  src_node :: u8
  dst_node :: u8
  pkt_hop_count :: u8
  seq_num :: u16
  payload_len :: u16

record MESH_BEACON =
  hdr :: MESH_PKT_HDR
  beacon_node_id :: u8
  node_name :: string
  neighbors :: "u8 list"
  neighbor_count :: u8

text \<open>
  One line of console output: a \<^verbatim>\<open>printf\<close> call with its format string and arguments, or a
  call of the external \<^verbatim>\<open>dump_hex(data, len, 16, "  ")\<close>.
\<close>

datatype printf_arg = U nat | D int | S string

datatype console_out = Printf string "printf_arg list" | Dump_hex "u8 list" u16

text \<open>
  The global variables of winc\_p2p.c (lines 19--27). \<open>verbose\<close> is the \<^verbatim>\<open>extern int\<close>
  of the same name. \<open>local_node_name\<close> holds the C string stored in the 16-byte array.
\<close>

record mesh_globals =
  p2p_enabled :: bool
  mesh_enabled :: bool
  p2p_mode :: u8
  routing_table :: MESH_ROUTING_TABLE
  mesh_seq_num :: u16
  local_node_name :: string
  last_beacon_time :: u32
  verbose :: int
  console :: "console_out list"

definition printf :: "mesh_globals \<Rightarrow> string \<Rightarrow> printf_arg list \<Rightarrow> mesh_globals" where
  "printf s fmt args = s\<lparr>console := console s @ [Printf fmt args]\<rparr>"

text \<open>A slot after \<^verbatim>\<open>memset(&routing_table, 0, sizeof(routing_table))\<close>.\<close>

definition zero_node :: MESH_NODE where
  "zero_node = \<lparr>node_id = 0, mac_addr = replicate 6 0, hop_count = 0, next_hop = 0,
     last_update = 0, is_active = False\<rparr>"

text \<open>The variables as the program starts: static storage is zero-initialised.\<close>

definition boot :: "int \<Rightarrow> mesh_globals" where
  "boot v = \<lparr>p2p_enabled = False, mesh_enabled = False, p2p_mode = P2P_MODE_IDLE,
     routing_table = \<lparr>nodes = replicate MESH_MAX_NODES zero_node, node_count = 0,
       local_node_id = 0\<rparr>,
     mesh_seq_num = 0, local_node_name = [], last_beacon_time = 0, verbose = v,
     console = []\<rparr>"

subsection \<open>P2P mode (winc\_p2p.c, lines 29--114)\<close>

text \<open>\<open>ok\<close> is the result of \<^verbatim>\<open>hif_put\<close>, a function of winc\_wifi.c.\<close>

definition p2p_enable :: "mesh_globals \<Rightarrow> u8 \<Rightarrow> bool \<Rightarrow> bool \<times> mesh_globals" where
  "p2p_enable s channel ok =
     (let s1 = (if verbose s \<noteq> 0
                then printf s ''Enabling P2P mode on channel %u\<newline>'' [U (unat channel)]
                else s);
          s2 = (if ok
                then (let s' = s1\<lparr>p2p_enabled := True, p2p_mode := P2P_MODE_IDLE\<rparr>
                      in if verbose s' \<noteq> 0 then printf s' ''P2P mode enabled\<newline>'' [] else s')
                else printf s1 ''Failed to enable P2P mode\<newline>'' [])
      in (ok, s2))"

definition p2p_disable :: "mesh_globals \<Rightarrow> bool \<Rightarrow> bool \<times> mesh_globals" where
  "p2p_disable s ok =
     (let s1 = (if verbose s \<noteq> 0 then printf s ''Disabling P2P mode\<newline>'' [] else s);
          s2 = (if ok
                then (let s' = s1\<lparr>p2p_enabled := False, p2p_mode := P2P_MODE_IDLE\<rparr>
                      in if verbose s' \<noteq> 0 then printf s' ''P2P mode disabled\<newline>'' [] else s')
                else s1)
      in (ok, s2))"

definition p2p_start_listen :: "mesh_globals \<Rightarrow> u8 \<Rightarrow> bool \<times> mesh_globals" where
  "p2p_start_listen s channel =
     (if \<not> p2p_enabled s then (False, printf s ''P2P mode not enabled\<newline>'' [])
      else
        (let s1 = (if verbose s \<noteq> 0
                   then printf s ''Starting P2P listen on channel %u\<newline>'' [U (unat channel)]
                   else s)
         in (True, s1\<lparr>p2p_mode := P2P_MODE_LISTEN\<rparr>)))"

definition p2p_start_search :: "mesh_globals \<Rightarrow> bool \<times> mesh_globals" where
  "p2p_start_search s =
     (if \<not> p2p_enabled s then (False, printf s ''P2P mode not enabled\<newline>'' [])
      else
        (let s1 = (if verbose s \<noteq> 0 then printf s ''Starting P2P device search\<newline>'' [] else s)
         in (True, s1\<lparr>p2p_mode := P2P_MODE_SEARCH\<rparr>)))"

subsection \<open>Mesh initialisation and switching (winc\_p2p.c, lines 169--218)\<close>

text \<open>
  \<^verbatim>\<open>strncpy\<close> of at most 15 characters into the zero-terminated 16-byte array leaves the
  first 15 characters of the name.
\<close>

definition mesh_init :: "mesh_globals \<Rightarrow> u8 \<Rightarrow> string \<Rightarrow> bool \<times> mesh_globals" where
  "mesh_init s nid name =
     (let s1 = (if verbose s \<noteq> 0
                then printf s ''Initializing mesh network, node ID: %u, name: %s\<newline>''
                       [U (unat nid), S name]
                else s)
      in (True,
          s1\<lparr>routing_table :=
                \<lparr>nodes = replicate MESH_MAX_NODES zero_node, node_count = 0,
                 local_node_id = nid\<rparr>,
              local_node_name := take 15 name,
              mesh_seq_num := 0,
              last_beacon_time := 0\<rparr>))"

text \<open>\<open>us\<close> is the value of \<^verbatim>\<open>time_us_32()\<close>; the code divides it by 1000.\<close>

definition mesh_enable :: "mesh_globals \<Rightarrow> u32 \<Rightarrow> bool \<times> mesh_globals" where
  "mesh_enable s us =
     (if \<not> p2p_enabled s
      then (False, printf s ''P2P mode must be enabled before mesh networking\<newline>'' [])
      else
        (let s1 = (if verbose s \<noteq> 0 then printf s ''Enabling mesh networking\<newline>'' [] else s);
             s2 = s1\<lparr>mesh_enabled := True, last_beacon_time := us div 1000\<rparr>
         in (True, snd (p2p_start_listen s2 P2P_LISTEN_CHAN))))"

definition mesh_disable :: "mesh_globals \<Rightarrow> bool \<times> mesh_globals" where
  "mesh_disable s =
     (let s1 = (if verbose s \<noteq> 0 then printf s ''Disabling mesh networking\<newline>'' [] else s)
      in (True, s1\<lparr>mesh_enabled := False\<rparr>))"

subsection \<open>Route lookup (winc\_p2p.c, lines 389--412)\<close>

text \<open>
  The loop of \<^verbatim>\<open>mesh_find_route\<close>. The pointer \<^verbatim>\<open>best_node\<close> is the index of the slot it
  points to, \<open>None\<close> for \<^verbatim>\<open>NULL\<close>. The counter \<open>i\<close> is a \<^verbatim>\<open>uint8_t\<close>, as in the code.
\<close>

function find_route_loop ::
  "MESH_NODE list \<Rightarrow> u8 \<Rightarrow> u8 \<Rightarrow> u8 \<Rightarrow> nat option \<Rightarrow> u8 \<Rightarrow> nat option" where
  "find_route_loop ns cnt dst i best_node min_hops =
     (if i < cnt
      then (if node_id (ns ! unat i) = dst \<and> is_active (ns ! unat i) \<and>
               hop_count (ns ! unat i) < min_hops
            then find_route_loop ns cnt dst (i + 1) (Some (unat i)) (hop_count (ns ! unat i))
            else find_route_loop ns cnt dst (i + 1) best_node min_hops)
      else best_node)"
  by pat_completeness auto
termination
proof (relation "measure (\<lambda>(ns, cnt, dst, i, b, m). unat cnt - unat i)", goal_cases)
  case 1
  show ?case by simp
next
  case (2 ns cnt dst i b m)
  have "unat cnt < 256" using unsigned_less [of cnt] by simp
  with 2 show ?case by (simp add: word_less_nat_alt unat_word_ariths)
next
  case (3 ns cnt dst i b m)
  have "unat cnt < 256" using unsigned_less [of cnt] by simp
  with 3 show ?case by (simp add: word_less_nat_alt unat_word_ariths)
qed

text \<open>The result is a C \<^verbatim>\<open>int\<close>: the \<^verbatim>\<open>next_hop\<close> byte of the best slot, or \<open>-1\<close>.\<close>

definition mesh_find_route :: "mesh_globals \<Rightarrow> u8 \<Rightarrow> int" where
  "mesh_find_route s dst =
     (let rt = routing_table s
      in case find_route_loop (nodes rt) (node_count rt) dst 0 None 255 of
           Some k \<Rightarrow> uint (next_hop (nodes rt ! k))
         | None \<Rightarrow> - 1)"

subsection \<open>Sending (winc\_p2p.c, lines 220--301)\<close>

text \<open>
  The loop of \<^verbatim>\<open>mesh_send_beacon\<close> that copies the active one-hop nodes into
  \<^verbatim>\<open>beacon.neighbors\<close>; the pair is the array and \<^verbatim>\<open>neighbor_idx\<close>.
\<close>

function beacon_neighbors ::
  "MESH_NODE list \<Rightarrow> u8 \<Rightarrow> u8 \<Rightarrow> u8 list \<times> u8 \<Rightarrow> u8 list \<times> u8" where
  "beacon_neighbors ns cnt i (nb, neighbor_idx) =
     (if i < cnt \<and> unat neighbor_idx < MESH_MAX_NODES
      then beacon_neighbors ns cnt (i + 1)
             (if is_active (ns ! unat i) \<and> hop_count (ns ! unat i) = 1
              then (nb[unat neighbor_idx := node_id (ns ! unat i)], neighbor_idx + 1)
              else (nb, neighbor_idx))
      else (nb, neighbor_idx))"
  by pat_completeness auto
termination
proof (relation "measure (\<lambda>(ns, cnt, i, p). unat cnt - unat i)", goal_cases)
  case 1
  show ?case by simp
next
  case (2 ns cnt i nb neighbor_idx)
  have "unat cnt < 256" using unsigned_less [of cnt] by simp
  with 2 show ?case by (auto simp add: word_less_nat_alt unat_word_ariths)
qed

text \<open>
  The beacon that \<^verbatim>\<open>mesh_send_beacon\<close> fills in. \<^verbatim>\<open>payload_len\<close> is
  \<^verbatim>\<open>sizeof(MESH_BEACON) - sizeof(MESH_PKT_HDR)\<close>, 34 - 8 bytes.
\<close>

definition build_beacon :: "mesh_globals \<Rightarrow> MESH_BEACON" where
  "build_beacon s =
     (let rt = routing_table s;
          (nb, neighbor_idx) =
             beacon_neighbors (nodes rt) (node_count rt) 0 (replicate MESH_MAX_NODES 0, 0)
      in \<lparr>hdr = \<lparr>msg_type = MESH_MSG_BEACON, src_node = local_node_id rt, dst_node = 0xFF,
                  pkt_hop_count = 0, seq_num = mesh_seq_num s, payload_len = 26\<rparr>,
          beacon_node_id = local_node_id rt,
          node_name = take 15 (local_node_name s),
          neighbors = nb,
          neighbor_count = neighbor_idx\<rparr>)"

text \<open>The beacon is built and counted but not handed to any socket: the code has none.\<close>

definition mesh_send_beacon :: "mesh_globals \<Rightarrow> u32 \<Rightarrow> bool \<times> mesh_globals" where
  "mesh_send_beacon s us =
     (if \<not> mesh_enabled s then (False, s)
      else
        (let beacon = build_beacon s;
             s1 = s\<lparr>mesh_seq_num := mesh_seq_num s + 1\<rparr>;
             s2 = (if verbose s1 > 1
                   then printf s1 ''Sending mesh beacon, neighbors: %u\<newline>''
                          [U (unat (neighbor_count beacon))]
                   else s1)
         in (True, s2\<lparr>last_beacon_time := us div 1000\<rparr>)))"

definition mesh_send_data ::
  "mesh_globals \<Rightarrow> u8 \<Rightarrow> u8 list \<Rightarrow> u16 \<Rightarrow> bool \<times> mesh_globals" where
  "mesh_send_data s dst data len =
     (if \<not> mesh_enabled s then (False, printf s ''Mesh networking not enabled\<newline>'' [])
      else
        (let nh = mesh_find_route s dst
         in if nh < 0
            then (False, printf s ''No route to destination node %u\<newline>'' [U (unat dst)])
            else
              (let s1 = s\<lparr>mesh_seq_num := mesh_seq_num s + 1\<rparr>
               in (True,
                   if verbose s1 \<noteq> 0
                   then printf s1 ''Sending mesh data to node %u via next hop %d\<newline>''
                          [U (unat dst), D nh]
                   else s1))))"

subsection \<open>Receiving data (winc\_p2p.c, lines 303--344 and 442--452)\<close>

definition mesh_data_handler :: "mesh_globals \<Rightarrow> u8 list \<Rightarrow> u16 \<Rightarrow> mesh_globals" where
  "mesh_data_handler s data len =
     (if verbose s \<noteq> 0
      then (let s1 = printf s ''Received mesh data, length: %u\<newline>'' [U (unat len)]
            in s1\<lparr>console := console s1 @ [Dump_hex data len]\<rparr>)
      else s)"

text \<open>
  \<^verbatim>\<open>mesh_route_packet\<close> writes through the pointer \<^verbatim>\<open>pkt\<close>: the header is returned with the
  result and the variables.
\<close>

definition mesh_route_packet ::
  "mesh_globals \<Rightarrow> MESH_PKT_HDR \<Rightarrow> u8 list \<Rightarrow> bool \<times> mesh_globals \<times> MESH_PKT_HDR" where
  "mesh_route_packet s pkt data =
     (if dst_node pkt = local_node_id (routing_table s)
      then (True, mesh_data_handler s data (payload_len pkt), pkt)
      else if unat (pkt_hop_count pkt) \<ge> MESH_MAX_HOPS
      then (False,
            if verbose s \<noteq> 0 then printf s ''Packet exceeded max hops, dropping\<newline>'' [] else s,
            pkt)
      else
        (let nh = mesh_find_route s (dst_node pkt)
         in if nh < 0
            then (False,
                  if verbose s \<noteq> 0
                  then printf s ''No route to node %u, dropping packet\<newline>''
                         [U (unat (dst_node pkt))]
                  else s,
                  pkt)
            else
              (let pkt' = pkt\<lparr>pkt_hop_count := pkt_hop_count pkt + 1\<rparr>
               in (True,
                   if verbose s > 1
                   then printf s ''Routing packet to node %u via hop %d\<newline>''
                          [U (unat (dst_node pkt')), D nh]
                   else s,
                   pkt'))))"

subsection \<open>Beacon ingest (winc\_p2p.c, lines 346--387)\<close>

text \<open>The search loop of lines 354--361: the index of the first slot with the beacon's id.\<close>

function find_existing :: "MESH_NODE list \<Rightarrow> u8 \<Rightarrow> u8 \<Rightarrow> u8 \<Rightarrow> nat option" where
  "find_existing ns cnt nid i =
     (if i < cnt
      then (if node_id (ns ! unat i) = nid then Some (unat i)
            else find_existing ns cnt nid (i + 1))
      else None)"
  by pat_completeness auto
termination
proof (relation "measure (\<lambda>(ns, cnt, nid, i). unat cnt - unat i)", goal_cases)
  case 1
  show ?case by simp
next
  case (2 ns cnt nid i)
  have "unat cnt < 256" using unsigned_less [of cnt] by simp
  with 2 show ?case by (auto simp add: word_less_nat_alt unat_word_ariths)
qed

text \<open>
  Lines 353--368: the pointer \<^verbatim>\<open>node\<close> after the search and the insertion, as a slot index
  (\<open>None\<close> for \<^verbatim>\<open>NULL\<close>), and the table with a slot taken for a new node.
\<close>

definition select_node ::
  "MESH_ROUTING_TABLE \<Rightarrow> u8 \<Rightarrow> nat option \<times> MESH_ROUTING_TABLE" where
  "select_node rt nid =
     (let found = find_existing (nodes rt) (node_count rt) nid 0
      in if found = None \<and> unat (node_count rt) < MESH_MAX_NODES
         then (Some (unat (node_count rt)),
               rt\<lparr>nodes := (nodes rt)[unat (node_count rt) :=
                        (nodes rt ! unat (node_count rt))\<lparr>node_id := nid\<rparr>],
                  node_count := node_count rt + 1\<rparr>)
         else (found, rt))"

text \<open>Lines 372--381: the fields written through \<^verbatim>\<open>node\<close>.\<close>

definition update_node :: "u32 \<Rightarrow> MESH_BEACON \<Rightarrow> MESH_NODE \<Rightarrow> MESH_NODE" where
  "update_node current_time beacon node =
     (let n1 = node\<lparr>hop_count := pkt_hop_count (hdr beacon) + 1,
                     last_update := current_time, is_active := True\<rparr>
      in if hop_count n1 = 1 then n1\<lparr>next_hop := beacon_node_id beacon\<rparr> else n1)"

definition mesh_update_routing_table ::
  "mesh_globals \<Rightarrow> u32 \<Rightarrow> MESH_BEACON \<Rightarrow> mesh_globals" where
  "mesh_update_routing_table s us beacon =
     (let current_time = us div 1000;
          (node, rt1) = select_node (routing_table s) (beacon_node_id beacon)
      in case node of
           None \<Rightarrow> s
         | Some k \<Rightarrow>
             (let s1 = s\<lparr>routing_table :=
                          rt1\<lparr>nodes := (nodes rt1)[k :=
                                update_node current_time beacon (nodes rt1 ! k)]\<rparr>\<rparr>
              in if verbose s1 > 1
                 then printf s1 ''Updated routing table: node %u, hops %u\<newline>''
                        [U (unat (node_id (nodes (routing_table s1) ! k))),
                         U (unat (hop_count (nodes (routing_table s1) ! k)))]
                 else s1))"

subsection \<open>The periodic handler (winc\_p2p.c, lines 414--440)\<close>

text \<open>
  The loop of lines 424--433. Both times are \<^verbatim>\<open>uint32_t\<close>: the difference wraps, and is
  compared as an unsigned number. \<open>current_time\<close> is \<^verbatim>\<open>time_us_32() / 1000\<close>, a number of
  milliseconds below 4294968.
\<close>

function stale_routes :: "mesh_globals \<Rightarrow> u32 \<Rightarrow> u8 \<Rightarrow> mesh_globals" where
  "stale_routes s current_time i =
     (if i < node_count (routing_table s)
      then stale_routes
             (if is_active (nodes (routing_table s) ! unat i) \<and>
                 current_time - last_update (nodes (routing_table s) ! unat i)
                   > MESH_ROUTE_TIMEOUT
              then (let rt = routing_table s;
                        s1 = s\<lparr>routing_table :=
                                 rt\<lparr>nodes := (nodes rt)[unat i :=
                                       (nodes rt ! unat i)\<lparr>is_active := False\<rparr>]\<rparr>\<rparr>
                    in if verbose s1 \<noteq> 0
                       then printf s1 ''Route to node %u timed out\<newline>''
                              [U (unat (node_id (nodes (routing_table s1) ! unat i)))]
                       else s1)
              else s)
             current_time (i + 1)
      else s)"
  by pat_completeness auto
termination
proof (relation "measure (\<lambda>(s, t, i). unat (node_count (routing_table s)) - unat i)",
    goal_cases)
  case 1
  show ?case by simp
next
  case (2 s current_time i)
  have "unat (node_count (routing_table s)) < 256"
    using unsigned_less [of "node_count (routing_table s)"] by simp
  with 2 show ?case
    by (auto simp add: word_less_nat_alt unat_word_ariths printf_def Let_def)
qed

text \<open>
  \<open>us\<close> is the clock value read by the handler, \<open>us2\<close> the one read by
  \<^verbatim>\<open>mesh_send_beacon\<close> when the handler calls it.
\<close>

definition mesh_beacon_handler :: "mesh_globals \<Rightarrow> u32 \<Rightarrow> u32 \<Rightarrow> mesh_globals" where
  "mesh_beacon_handler s us us2 =
     (let current_time = us div 1000
      in if \<not> mesh_enabled s then s
         else
           (let s1 = stale_routes s current_time 0
            in if current_time - last_beacon_time s1 > MESH_BEACON_INTERVAL
               then snd (mesh_send_beacon s1 us2)
               else s1))"

subsection \<open>Sequences of calls\<close>

text \<open>
  One call of a function of winc\_p2p.c that changes a variable, with the arguments and
  the outside values it reads. \<^verbatim>\<open>mesh_init\<close> is not among them: the sequences below start
  from its result.
\<close>

datatype mesh_op =
    P2p_enable u8 bool
  | P2p_disable bool
  | P2p_start_listen u8
  | P2p_start_search
  | Mesh_enable u32
  | Mesh_disable
  | Mesh_send_beacon u32
  | Mesh_send_data u8 "u8 list" u16
  | Mesh_route_packet MESH_PKT_HDR "u8 list"
  | Mesh_update_routing_table u32 MESH_BEACON
  | Mesh_beacon_handler u32 u32
  | Mesh_data_handler "u8 list" u16

fun step :: "mesh_globals \<Rightarrow> mesh_op \<Rightarrow> mesh_globals" where
  "step s (P2p_enable channel ok) = snd (p2p_enable s channel ok)"
| "step s (P2p_disable ok) = snd (p2p_disable s ok)"
| "step s (P2p_start_listen channel) = snd (p2p_start_listen s channel)"
| "step s P2p_start_search = snd (p2p_start_search s)"
| "step s (Mesh_enable us) = snd (mesh_enable s us)"
| "step s Mesh_disable = snd (mesh_disable s)"
| "step s (Mesh_send_beacon us) = snd (mesh_send_beacon s us)"
| "step s (Mesh_send_data dst data len) = snd (mesh_send_data s dst data len)"
| "step s (Mesh_route_packet pkt data) = fst (snd (mesh_route_packet s pkt data))"
| "step s (Mesh_update_routing_table us beacon) = mesh_update_routing_table s us beacon"
| "step s (Mesh_beacon_handler us us2) = mesh_beacon_handler s us us2"
| "step s (Mesh_data_handler data len) = mesh_data_handler s data len"

definition run :: "mesh_globals \<Rightarrow> mesh_op list \<Rightarrow> mesh_globals" where
  "run s ops = foldl step s ops"

subsection \<open>Well-formed tables and example values\<close>

text \<open>
  The array has \<open>MESH_MAX_NODES\<close> slots and \<^verbatim>\<open>node_count\<close> stays within it; the loops of the
  code index \<^verbatim>\<open>nodes[i]\<close> for \<^verbatim>\<open>i < node_count\<close>, which is defined in C only then.
\<close>

definition wf_table :: "MESH_ROUTING_TABLE \<Rightarrow> bool" where
  "wf_table rt \<longleftrightarrow>
     length (nodes rt) = MESH_MAX_NODES \<and> unat (node_count rt) \<le> MESH_MAX_NODES"

text \<open>
  The invariant of the table: it is well formed, the stored entries carry pairwise
  different node ids, and no slot past \<^verbatim>\<open>node_count\<close> is marked active.
\<close>

definition table_inv :: "MESH_ROUTING_TABLE \<Rightarrow> bool" where
  "table_inv rt \<longleftrightarrow>
     wf_table rt \<and>
     (\<forall>i<unat (node_count rt). \<forall>j<unat (node_count rt).
        i \<noteq> j \<longrightarrow> node_id (nodes rt ! i) \<noteq> node_id (nodes rt ! j)) \<and>
     (\<forall>i<MESH_MAX_NODES. unat (node_count rt) \<le> i \<longrightarrow> \<not> is_active (nodes rt ! i))"

text \<open>
  Node 1 of mesh\_example.c (\<^verbatim>\<open>MESH_NODE_ID 1\<close>, \<^verbatim>\<open>MESH_NODE_NAME "PicoNode1"\<close>) after
  \<^verbatim>\<open>mesh_init\<close>, a beacon of node \<open>nid\<close> whose header carries hop count \<open>h\<close>, and the header
  of a data packet.
\<close>

definition node1 :: mesh_globals where
  "node1 = snd (mesh_init (boot 0) 1 ''PicoNode1'')"

definition beacon_of :: "u8 \<Rightarrow> u8 \<Rightarrow> MESH_BEACON" where
  "beacon_of nid h =
     \<lparr>hdr = \<lparr>msg_type = MESH_MSG_BEACON, src_node = nid, dst_node = 0xFF, pkt_hop_count = h,
              seq_num = 0, payload_len = 26\<rparr>,
      beacon_node_id = nid, node_name = [], neighbors = replicate MESH_MAX_NODES 0,
      neighbor_count = 0\<rparr>"

definition data_pkt :: "u8 \<Rightarrow> u8 \<Rightarrow> u8 \<Rightarrow> MESH_PKT_HDR" where
  "data_pkt src dst h =
     \<lparr>msg_type = MESH_MSG_DATA, src_node = src, dst_node = dst, pkt_hop_count = h,
      seq_num = 7, payload_len = 3\<rparr>"

text \<open>
  Node 1 after beacons of the eight nodes 2 to 9, each with hop count 0 in its header,
  at time 0.
\<close>

definition table_full :: mesh_globals where
  "table_full = foldl (\<lambda>s n. mesh_update_routing_table s 0 (beacon_of n 0)) node1
     [2, 3, 4, 5, 6, 7, 8, 9]"

text \<open>The same eight beacons at node 1 running with \<^verbatim>\<open>verbose\<close> = 2.\<close>

definition table_full_verbose :: mesh_globals where
  "table_full_verbose =
     foldl (\<lambda>s n. mesh_update_routing_table s 0 (beacon_of n 0))
       (snd (mesh_init (boot 2) 1 ''PicoNode1'')) [2, 3, 4, 5, 6, 7, 8, 9]"

text \<open>
  Node 1 brought up as winc\_pico\_part2.c does it (\<^verbatim>\<open>p2p_enable\<close>, \<^verbatim>\<open>mesh_init\<close>,
  \<^verbatim>\<open>mesh_enable\<close>), and then with beacons of node 2 at 0 s and of node 3 at 40 s.
\<close>

definition node1_enabled :: mesh_globals where
  "node1_enabled =
     snd (mesh_enable
            (snd (mesh_init (snd (p2p_enable (boot 0) P2P_LISTEN_CHAN True)) 1 ''PicoNode1'')) 0)"

definition two_neighbours :: mesh_globals where
  "two_neighbours =
     run node1_enabled
       [Mesh_update_routing_table 0 (beacon_of 2 0),
        Mesh_update_routing_table 40000000 (beacon_of 3 0)]"

section \<open>Properties\<close>

subsection \<open>Auxiliary facts\<close>

text \<open>The loop equations are unfolded by hand in the proofs below.\<close>

declare find_existing.simps [simp del] stale_routes.simps [simp del]
  find_route_loop.simps [simp del] beacon_neighbors.simps [simp del]

lemma unat_inc: "(i::'a::len word) < n \<Longrightarrow> unat (i + 1) = Suc (unat i)"
  by (simp add: word_less_nat_alt unat_word_ariths) (metis Suc_lessI mod_less not_less_eq unsigned_less)

lemma unat_count_inc: "unat (c::u8) < 8 \<Longrightarrow> unat (c + 1) = Suc (unat c)"
  by (simp add: unat_word_ariths)

text \<open>
  What the search loop returns: the first index below \<^verbatim>\<open>node_count\<close> whose slot carries the
  id, and \<open>None\<close> exactly when no such slot exists.
\<close>

lemma find_existing_Some:
  "find_existing ns cnt nid i = Some k \<Longrightarrow>
     unat i \<le> k \<and> k < unat cnt \<and> node_id (ns ! k) = nid \<and>
     (\<forall>j. unat i \<le> j \<and> j < k \<longrightarrow> node_id (ns ! j) \<noteq> nid)"
proof (induction ns cnt nid i rule: find_existing.induct)
  case (1 ns cnt nid i)
  show ?case
  proof (cases "i < cnt")
    case False
    with "1.prems" show ?thesis by (simp add: find_existing.simps)
  next
    case lt: True
    show ?thesis
    proof (cases "node_id (ns ! unat i) = nid")
      case True
      with lt "1.prems" have "k = unat i" by (simp add: find_existing.simps)
      with lt True show ?thesis by (auto simp add: word_less_nat_alt)
    next
      case False
      with lt "1.prems" have "find_existing ns cnt nid (i + 1) = Some k"
        by (simp add: find_existing.simps)
      from "1.IH" [OF lt False this] lt False show ?thesis
        by (auto simp: unat_inc) (metis Suc_leI le_neq_implies_less)
    qed
  qed
qed

lemma find_existing_None:
  "find_existing ns cnt nid i = None \<longleftrightarrow>
     (\<forall>j. unat i \<le> j \<and> j < unat cnt \<longrightarrow> node_id (ns ! j) \<noteq> nid)"
proof (induction ns cnt nid i rule: find_existing.induct)
  case (1 ns cnt nid i)
  show ?case
  proof (cases "i < cnt")
    case False
    then show ?thesis by (auto simp add: find_existing.simps word_less_nat_alt)
  next
    case lt: True
    show ?thesis
    proof (cases "node_id (ns ! unat i) = nid")
      case True
      with lt show ?thesis by (auto simp add: find_existing.simps word_less_nat_alt)
    next
      case False
      from "1.IH" [OF lt False] lt False show ?thesis
        apply (subst find_existing.simps)
        apply (auto simp: unat_inc le_Suc_eq Suc_le_eq)
        by (metis Suc_leI le_neq_implies_less)
    qed
  qed
qed

lemma find_existing_first:
  assumes "k < unat cnt" and "node_id (ns ! k) = nid"
    and "\<forall>j<k. node_id (ns ! j) \<noteq> nid"
  shows "find_existing ns cnt nid 0 = Some k"
proof (cases "find_existing ns cnt nid 0")
  case None
  with assms show ?thesis by (auto simp: find_existing_None)
next
  case (Some k')
  from find_existing_Some [OF Some] assms have "k' = k"
    by (metis linorder_neqE_nat zero_le unat_0 unsigned_0)
  with Some show ?thesis by simp
qed

lemma node_id_update_node [simp]: "node_id (update_node t b n) = node_id n"
  by (simp add: update_node_def Let_def)

lemma routing_table_printf [simp]: "routing_table (printf s f a) = routing_table s"
  by (simp add: printf_def)

text \<open>The routing table after \<^verbatim>\<open>mesh_update_routing_table\<close>, by the three paths of the code.\<close>

lemma update_routing_table_rt:
  assumes "length (nodes (routing_table s)) = MESH_MAX_NODES"
  shows "routing_table (mesh_update_routing_table s us b) =
     (let rt = routing_table s; c = unat (node_count rt)
      in case find_existing (nodes rt) (node_count rt) (beacon_node_id b) 0 of
           Some k \<Rightarrow> rt\<lparr>nodes := (nodes rt)[k := update_node (us div 1000) b (nodes rt ! k)]\<rparr>
         | None \<Rightarrow>
             if c < MESH_MAX_NODES
             then rt\<lparr>nodes := (nodes rt)[c :=
                        update_node (us div 1000) b ((nodes rt ! c)\<lparr>node_id := beacon_node_id b\<rparr>)],
                     node_count := node_count rt + 1\<rparr>
             else rt)"
  using assms
  by (simp add: mesh_update_routing_table_def select_node_def Let_def split: option.splits)

lemma update_routing_table_refused:
  assumes "find_existing (nodes (routing_table s)) (node_count (routing_table s))
             (beacon_node_id b) 0 = None"
    and "\<not> unat (node_count (routing_table s)) < MESH_MAX_NODES"
  shows "mesh_update_routing_table s us b = s"
  using assms by (simp add: mesh_update_routing_table_def select_node_def)

text \<open>The sweep loop touches nothing but \<^verbatim>\<open>is_active\<close> flags and the console.\<close>

lemma stale_routes_frame:
  "node_count (routing_table (stale_routes s now i)) = node_count (routing_table s) \<and>
   local_node_id (routing_table (stale_routes s now i)) = local_node_id (routing_table s) \<and>
   length (nodes (routing_table (stale_routes s now i))) = length (nodes (routing_table s)) \<and>
   mesh_enabled (stale_routes s now i) = mesh_enabled s \<and>
   p2p_enabled (stale_routes s now i) = p2p_enabled s \<and>
   p2p_mode (stale_routes s now i) = p2p_mode s \<and>
   mesh_seq_num (stale_routes s now i) = mesh_seq_num s \<and>
   local_node_name (stale_routes s now i) = local_node_name s \<and>
   last_beacon_time (stale_routes s now i) = last_beacon_time s \<and>
   verbose (stale_routes s now i) = verbose s"
  apply (induction s now i rule: stale_routes.induct)
  apply (subst (1 2 3 4 5 6 7 8 9 10) stale_routes.simps)
  apply (simp add: Let_def printf_def split: if_splits)
  done

lemma stale_routes_nth:
  "j < length (nodes (routing_table s)) \<Longrightarrow>
   nodes (routing_table (stale_routes s now i)) ! j =
     (if unat i \<le> j \<and> j < unat (node_count (routing_table s)) \<and>
         is_active (nodes (routing_table s) ! j) \<and>
         MESH_ROUTE_TIMEOUT < now - last_update (nodes (routing_table s) ! j)
      then (nodes (routing_table s) ! j)\<lparr>is_active := False\<rparr>
      else nodes (routing_table s) ! j)"
proof (induction s now i rule: stale_routes.induct)
  case (1 s now i)
  let ?rt = "routing_table s"
  show ?case
  proof (cases "i < node_count ?rt")
    case False
    then show ?thesis
      by (subst stale_routes.simps) (auto simp: word_less_nat_alt)
  next
    case True
    then have i1: "unat (i + 1) = Suc (unat i)" by (rule unat_inc)
    from True have ic: "unat i < unat (node_count ?rt)" by (simp add: word_less_nat_alt)
    from "1.IH" [OF True] "1.prems" True i1 ic show ?thesis
      apply (subst stale_routes.simps)
      apply (simp add: Let_def printf_def nth_list_update split: if_splits)
      done
  qed
qed

lemma routing_table_send_beacon [simp]:
  "routing_table (snd (mesh_send_beacon s us)) = routing_table s"
  by (simp add: mesh_send_beacon_def Let_def)

lemma step_routing_table_cases:
  obtains (same) "routing_table (step s op) = routing_table s"
  | (ingest) us b where "op = Mesh_update_routing_table us b"
  | (sweep) us us2 where "op = Mesh_beacon_handler us us2"
      and "routing_table (step s op) = routing_table (stale_routes s (us div 1000) 0)"
proof (cases op)
  case (Mesh_update_routing_table us b)
  then show ?thesis by (rule ingest)
next
  case (Mesh_beacon_handler us us2)
  show ?thesis
  proof (cases "mesh_enabled s")
    case True
    with Mesh_beacon_handler
    have "routing_table (step s op) = routing_table (stale_routes s (us div 1000) 0)"
      by (simp add: mesh_beacon_handler_def Let_def)
    with Mesh_beacon_handler show ?thesis by (rule sweep)
  next
    case False
    with Mesh_beacon_handler have "routing_table (step s op) = routing_table s"
      by (simp add: mesh_beacon_handler_def)
    then show ?thesis by (rule same)
  qed
qed (rule same;
     simp add: p2p_enable_def p2p_disable_def p2p_start_listen_def p2p_start_search_def
       mesh_enable_def mesh_disable_def mesh_send_data_def mesh_route_packet_def
       mesh_data_handler_def Let_def)+

text \<open>What one ingest does to the count, the array length and the node ids.\<close>

lemma nth_list_update_if:
  "xs[k := v] ! i = (if i = k \<and> k < length xs then v else xs ! i)"
  by (cases "k < length xs") (auto simp: nth_list_update list_update_beyond)

lemma wf_table_init: "wf_table (routing_table (snd (mesh_init s nid name)))"
  by (simp add: mesh_init_def wf_table_def Let_def)

lemma table_inv_init: "table_inv (routing_table (snd (mesh_init s nid name)))"
  by (simp add: mesh_init_def table_inv_def wf_table_def Let_def zero_node_def)

lemma update_count:
  assumes "wf_table (routing_table s)"
  shows "unat (node_count (routing_table (mesh_update_routing_table s us b))) =
           (if find_existing (nodes (routing_table s)) (node_count (routing_table s))
                 (beacon_node_id b) 0 = None \<and>
               unat (node_count (routing_table s)) < MESH_MAX_NODES
            then unat (node_count (routing_table s)) + 1
            else unat (node_count (routing_table s)))"
  using assms
  by (simp add: update_routing_table_rt wf_table_def Let_def unat_count_inc split: option.splits)

lemma update_length:
  assumes "wf_table (routing_table s)"
  shows "length (nodes (routing_table (mesh_update_routing_table s us b))) = MESH_MAX_NODES"
  using assms
  by (simp add: update_routing_table_rt wf_table_def Let_def split: option.splits)

lemma update_local:
  assumes "wf_table (routing_table s)"
  shows "local_node_id (routing_table (mesh_update_routing_table s us b)) =
         local_node_id (routing_table s)"
  using assms
  by (simp add: update_routing_table_rt wf_table_def Let_def split: option.splits)

lemma update_wf:
  assumes "wf_table (routing_table s)"
  shows "wf_table (routing_table (mesh_update_routing_table s us b))"
  using assms update_count [OF assms, of us b] update_length [OF assms, of us b]
  by (auto simp: wf_table_def)

text \<open>The node id of every slot after an ingest.\<close>

lemma update_node_id:
  assumes "wf_table (routing_table s)" and "i < MESH_MAX_NODES"
  shows "node_id (nodes (routing_table (mesh_update_routing_table s us b)) ! i) =
           (if find_existing (nodes (routing_table s)) (node_count (routing_table s))
                 (beacon_node_id b) 0 = None \<and>
               unat (node_count (routing_table s)) < MESH_MAX_NODES \<and>
               i = unat (node_count (routing_table s))
            then beacon_node_id b
            else node_id (nodes (routing_table s) ! i))"
  using assms
  by (auto simp: update_routing_table_rt wf_table_def Let_def nth_list_update_if
      split: option.splits)

lemma update_spare:
  assumes "wf_table (routing_table s)" and "i < MESH_MAX_NODES"
    and "unat (node_count (routing_table (mesh_update_routing_table s us b))) \<le> i"
  shows "nodes (routing_table (mesh_update_routing_table s us b)) ! i =
         nodes (routing_table s) ! i"
proof (cases "find_existing (nodes (routing_table s)) (node_count (routing_table s))
                 (beacon_node_id b) 0")
  case None
  with assms update_count [OF assms(1), of us b] show ?thesis
    by (auto simp: update_routing_table_rt wf_table_def Let_def nth_list_update)
next
  case (Some k)
  from find_existing_Some [OF Some] have "k < unat (node_count (routing_table s))" by simp
  with Some assms update_count [OF assms(1), of us b] show ?thesis
    by (auto simp: update_routing_table_rt wf_table_def Let_def nth_list_update)
qed

lemma update_table_inv:
  assumes "table_inv (routing_table s)"
  shows "table_inv (routing_table (mesh_update_routing_table s us b))"
proof -
  let ?rt = "routing_table s"
  let ?rt' = "routing_table (mesh_update_routing_table s us b)"
  from assms have wf: "wf_table ?rt" by (simp add: table_inv_def)
  from wf have c8: "unat (node_count ?rt) \<le> 8" by (simp add: wf_table_def)
  note cnt = update_count [OF wf, of us b]
  have wf': "wf_table ?rt'" using wf by (rule update_wf)
  have uniq: "node_id (nodes ?rt' ! i) \<noteq> node_id (nodes ?rt' ! j)"
    if "i < unat (node_count ?rt')" "j < unat (node_count ?rt')" "i \<noteq> j" for i j
  proof -
    from that wf' have i8: "i < MESH_MAX_NODES" and j8: "j < MESH_MAX_NODES"
      by (simp_all add: wf_table_def)
    show ?thesis
    proof (cases "find_existing (nodes ?rt) (node_count ?rt) (beacon_node_id b) 0 = None \<and>
               unat (node_count ?rt) < MESH_MAX_NODES")
      case False
      with cnt that have "i < unat (node_count ?rt)" "j < unat (node_count ?rt)" by auto
      with assms that(3) False update_node_id [OF wf i8, of us b] update_node_id [OF wf j8, of us b]
      show ?thesis by (auto simp: table_inv_def)
    next
      case True
      then have no: "\<forall>k<unat (node_count ?rt). node_id (nodes ?rt ! k) \<noteq> beacon_node_id b"
        by (simp add: find_existing_None)
      from True cnt that have "i \<le> unat (node_count ?rt)" "j \<le> unat (node_count ?rt)" by auto
      with assms that(3) True no update_node_id [OF wf i8, of us b]
        update_node_id [OF wf j8, of us b]
      show ?thesis
        by (auto simp: table_inv_def le_less)
    qed
  qed
  have spare: "\<not> is_active (nodes ?rt' ! i)"
    if "i < MESH_MAX_NODES" "unat (node_count ?rt') \<le> i" for i
  proof -
    from update_spare [OF wf that] have "nodes ?rt' ! i = nodes ?rt ! i" .
    moreover from cnt that have "unat (node_count ?rt) \<le> i" by (auto split: if_splits)
    ultimately show ?thesis using assms that by (simp add: table_inv_def)
  qed
  from wf' uniq spare show ?thesis
    unfolding table_inv_def by blast
qed

text \<open>The sweep and the other calls keep the invariant; so does every sequence of calls.\<close>

lemma sweep_table_inv:
  assumes "table_inv (routing_table s)"
  shows "table_inv (routing_table (stale_routes s now 0))"
proof -
  let ?rt = "routing_table s"
  let ?rt' = "routing_table (stale_routes s now 0)"
  note fr = stale_routes_frame [of s now 0]
  from assms have len: "length (nodes ?rt) = MESH_MAX_NODES"
    by (simp add: table_inv_def wf_table_def)
  have nth: "node_id (nodes ?rt' ! j) = node_id (nodes ?rt ! j) \<and>
             (is_active (nodes ?rt' ! j) \<longrightarrow> is_active (nodes ?rt ! j))"
    if "j < MESH_MAX_NODES" for j
    using that len stale_routes_nth [of j s now 0] by simp
  from assms fr nth show ?thesis
    unfolding table_inv_def wf_table_def
    by (metis (no_types, lifting) MESH_MAX_NODES_def less_le_trans)
qed

lemma step_table_inv:
  assumes "table_inv (routing_table s)"
  shows "table_inv (routing_table (step s op))"
proof (rule step_routing_table_cases [of s op])
  assume "routing_table (step s op) = routing_table s"
  with assms show ?thesis by simp
next
  fix us b
  assume "op = Mesh_update_routing_table us b"
  with assms show ?thesis by (simp add: update_table_inv)
next
  fix us us2
  assume "op = Mesh_beacon_handler us us2"
    and "routing_table (step s op) = routing_table (stale_routes s (us div 1000) 0)"
  with assms show ?thesis by (simp add: sweep_table_inv)
qed

lemma run_table_inv:
  assumes "table_inv (routing_table s)"
  shows "table_inv (routing_table (run s ops))"
  using assms unfolding run_def
  by (induction ops arbitrary: s) (simp_all add: step_table_inv)

lemma sweep_wf:
  assumes "wf_table (routing_table s)"
  shows "wf_table (routing_table (stale_routes s now i))"
  using assms stale_routes_frame [of s now i] by (simp add: wf_table_def)

lemma sweep_node_id:
  assumes "j < length (nodes (routing_table s))"
  shows "node_id (nodes (routing_table (stale_routes s now i)) ! j) =
         node_id (nodes (routing_table s) ! j)"
  using stale_routes_nth [OF assms, of now i] by simp

lemma step_wf:
  assumes "wf_table (routing_table s)"
  shows "wf_table (routing_table (step s op))"
proof (rule step_routing_table_cases [of s op])
  assume "routing_table (step s op) = routing_table s"
  with assms show ?thesis by simp
next
  fix us b
  assume "op = Mesh_update_routing_table us b"
  with assms show ?thesis by (simp add: update_wf)
next
  fix us us2
  assume "op = Mesh_beacon_handler us us2"
    and "routing_table (step s op) = routing_table (stale_routes s (us div 1000) 0)"
  with assms show ?thesis by (simp add: sweep_wf)
qed

lemma step_local_node_id:
  assumes "wf_table (routing_table s)"
  shows "local_node_id (routing_table (step s op)) = local_node_id (routing_table s)"
proof (rule step_routing_table_cases [of s op])
  assume "routing_table (step s op) = routing_table s"
  then show ?thesis by simp
next
  fix us b
  assume "op = Mesh_update_routing_table us b"
  with assms show ?thesis by (simp add: update_local)
next
  fix us us2
  assume "op = Mesh_beacon_handler us us2"
    and "routing_table (step s op) = routing_table (stale_routes s (us div 1000) 0)"
  then show ?thesis by (simp add: stale_routes_frame)
qed

text \<open>One call: the count and the stored ids.\<close>

lemma step_node_count:
  assumes "wf_table (routing_table s)"
  shows "unat (node_count (routing_table s)) \<le> unat (node_count (routing_table (step s op))) \<and>
    (unat (node_count (routing_table (step s op))) \<noteq> unat (node_count (routing_table s)) \<longrightarrow>
       unat (node_count (routing_table (step s op))) = unat (node_count (routing_table s)) + 1 \<and>
       unat (node_count (routing_table s)) < MESH_MAX_NODES \<and>
       (\<exists>us b. op = Mesh_update_routing_table us b \<and>
          find_existing (nodes (routing_table s)) (node_count (routing_table s))
            (beacon_node_id b) 0 = None)) \<and>
    (\<forall>us b. op = Mesh_update_routing_table us b \<and>
        find_existing (nodes (routing_table s)) (node_count (routing_table s))
          (beacon_node_id b) 0 = None \<and>
        unat (node_count (routing_table s)) < MESH_MAX_NODES \<longrightarrow>
        unat (node_count (routing_table (step s op))) = unat (node_count (routing_table s)) + 1) \<and>
    (\<forall>i<unat (node_count (routing_table s)).
        node_id (nodes (routing_table (step s op)) ! i) = node_id (nodes (routing_table s) ! i))"
proof (rule step_routing_table_cases [of s op])
  assume same: "routing_table (step s op) = routing_table s"
  have "unat (node_count (routing_table (step s op))) = unat (node_count (routing_table s)) + 1"
    if "op = Mesh_update_routing_table us b"
      and "find_existing (nodes (routing_table s)) (node_count (routing_table s))
            (beacon_node_id b) 0 = None"
      and "unat (node_count (routing_table s)) < MESH_MAX_NODES" for us b
    using that update_count [OF assms, of us b] by simp
  with same show ?thesis by auto
next
  fix us b
  assume op: "op = Mesh_update_routing_table us b"
  from assms have c8: "unat (node_count (routing_table s)) \<le> 8" by (simp add: wf_table_def)
  have ids: "node_id (nodes (routing_table (step s op)) ! i) = node_id (nodes (routing_table s) ! i)"
    if "i < unat (node_count (routing_table s))" for i
    using that c8 op update_node_id [OF assms, of i us b] by auto
  from op update_count [OF assms, of us b] ids show ?thesis
    by (auto split: if_splits)
next
  fix us us2
  assume op: "op = Mesh_beacon_handler us us2"
    and rt: "routing_table (step s op) = routing_table (stale_routes s (us div 1000) 0)"
  from assms have "unat (node_count (routing_table s)) \<le> length (nodes (routing_table s))"
    by (simp add: wf_table_def)
  with op rt show ?thesis
    by (simp add: stale_routes_frame sweep_node_id)
qed

lemma run_wf:
  assumes "wf_table (routing_table s)"
  shows "wf_table (routing_table (run s ops))"
  using assms unfolding run_def
  by (induction ops arbitrary: s) (simp_all add: step_wf)

lemma run_count_mono:
  assumes "wf_table (routing_table s)"
  shows "unat (node_count (routing_table s)) \<le> unat (node_count (routing_table (run s ops)))"
  using assms unfolding run_def
proof (induction ops arbitrary: s)
  case Nil
  then show ?case by simp
next
  case (Cons op ops)
  from step_node_count [OF Cons.prems, of op]
  have "unat (node_count (routing_table s)) \<le> unat (node_count (routing_table (step s op)))"
    by simp
  also from Cons.IH [OF step_wf [OF Cons.prems, of op]]
  have "\<dots> \<le> unat (node_count (routing_table (foldl step (step s op) ops)))" .
  finally show ?case by simp
qed

lemma step_local_absent:
  assumes wf: "wf_table (routing_table s)"
    and absent: "\<forall>i<unat (node_count (routing_table s)). node_id (nodes (routing_table s) ! i) \<noteq> l"
    and op: "\<forall>us b. op = Mesh_update_routing_table us b \<longrightarrow> beacon_node_id b \<noteq> l"
  shows "\<forall>i<unat (node_count (routing_table (step s op))).
           node_id (nodes (routing_table (step s op)) ! i) \<noteq> l"
proof (rule step_routing_table_cases [of s op])
  assume "routing_table (step s op) = routing_table s"
  with absent show ?thesis by simp
next
  fix us b
  assume is_op: "op = Mesh_update_routing_table us b"
  with op have b: "beacon_node_id b \<noteq> l" by simp
  from wf have c8: "unat (node_count (routing_table s)) \<le> 8" by (simp add: wf_table_def)
  show ?thesis
  proof (intro allI impI)
    fix i
    assume i: "i < unat (node_count (routing_table (step s op)))"
    with is_op update_wf [OF wf, of us b] have i8: "i < MESH_MAX_NODES"
      by (simp add: wf_table_def)
    from i is_op update_count [OF wf, of us b] absent b update_node_id [OF wf i8, of us b]
    show "node_id (nodes (routing_table (step s op)) ! i) \<noteq> l"
      by (auto split: if_splits simp: less_Suc_eq)
  qed
next
  fix us us2
  assume "op = Mesh_beacon_handler us us2"
    and rt: "routing_table (step s op) = routing_table (stale_routes s (us div 1000) 0)"
  from wf have "unat (node_count (routing_table s)) \<le> length (nodes (routing_table s))"
    by (simp add: wf_table_def)
  with rt absent show ?thesis
    by (simp add: stale_routes_frame sweep_node_id)
qed

lemma run_local_absent:
  assumes "wf_table (routing_table s)"
    and "\<forall>i<unat (node_count (routing_table s)). node_id (nodes (routing_table s) ! i) \<noteq> l"
    and "\<forall>us b. Mesh_update_routing_table us b \<in> set ops \<longrightarrow> beacon_node_id b \<noteq> l"
  shows "local_node_id (routing_table (run s ops)) = local_node_id (routing_table s) \<and>
         (\<forall>i<unat (node_count (routing_table (run s ops))).
            node_id (nodes (routing_table (run s ops)) ! i) \<noteq> l)"
  using assms unfolding run_def
proof (induction ops arbitrary: s)
  case Nil
  then show ?case by simp
next
  case (Cons op ops)
  have wf': "wf_table (routing_table (step s op))"
    using Cons.prems(1) by (rule step_wf)
  have absent': "\<forall>i<unat (node_count (routing_table (step s op))).
           node_id (nodes (routing_table (step s op)) ! i) \<noteq> l"
    using Cons.prems by (intro step_local_absent) auto
  have ops': "\<forall>us b. Mesh_update_routing_table us b \<in> set ops \<longrightarrow> beacon_node_id b \<noteq> l"
    using Cons.prems(3) by simp
  from Cons.IH [OF wf' absent' ops'] step_local_node_id [OF Cons.prems(1), of op]
  show ?case by simp
qed

subsection \<open>The packet forwarder\<close>

text \<open>
  C4. A packet that is not for this node and whose hop count has reached \<open>MESH_MAX_HOPS\<close>
  is dropped: \<^verbatim>\<open>mesh_route_packet\<close> returns false, the only output is the line
  "Packet exceeded max hops, dropping" (when \<^verbatim>\<open>verbose\<close> is set), the header is returned as
  it came and the routing table is the one before the call. The hop count is not
  incremented, which is all that forwarding does in this code.
\<close>

theorem route_packet_hop_limit:
  assumes "dst_node pkt \<noteq> local_node_id (routing_table s)"
    and "MESH_MAX_HOPS \<le> unat (pkt_hop_count pkt)"
  shows "mesh_route_packet s pkt data =
           (False,
            if verbose s \<noteq> 0 then printf s ''Packet exceeded max hops, dropping\<newline>'' [] else s,
            pkt) \<and>
         routing_table (fst (snd (mesh_route_packet s pkt data))) = routing_table s"
  using assms by (simp add: mesh_route_packet_def printf_def)

theorem route_packet_hop_limit_witness:
  "dst_node (data_pkt 5 9 4) \<noteq> local_node_id (routing_table node1) \<and>
   MESH_MAX_HOPS \<le> unat (pkt_hop_count (data_pkt 5 9 4)) \<and>
   mesh_route_packet node1 (data_pkt 5 9 4) [1, 2, 3] = (False, node1, data_pkt 5 9 4)"
proof -
  have h1: "dst_node (data_pkt 5 9 4) \<noteq> local_node_id (routing_table node1)"
    by (simp add: data_pkt_def node1_def mesh_init_def boot_def)
  have h2: "MESH_MAX_HOPS \<le> unat (pkt_hop_count (data_pkt 5 9 4))"
    by (simp add: data_pkt_def)
  have v: "verbose node1 = 0"
    by (simp add: node1_def mesh_init_def boot_def)
  from route_packet_hop_limit [OF h1 h2, of "[1, 2, 3]"] h1 h2 v show ?thesis
    by simp
qed

text \<open>
  C5. A packet whose destination is the local node is handed to \<^verbatim>\<open>mesh_data_handler\<close> with
  its payload and payload length, and \<^verbatim>\<open>mesh_route_packet\<close> returns true, whatever the hop
  count in the header. The handler leaves the routing table alone and, when \<^verbatim>\<open>verbose\<close> is
  set, prints the length and dumps the payload.
\<close>

theorem route_packet_local_delivery:
  assumes "dst_node pkt = local_node_id (routing_table s)"
  shows "mesh_route_packet s pkt data =
           (True, mesh_data_handler s data (payload_len pkt), pkt) \<and>
         routing_table (mesh_data_handler s data (payload_len pkt)) = routing_table s \<and>
         console (mesh_data_handler s data (payload_len pkt)) =
           console s @
             (if verbose s \<noteq> 0
              then [Printf ''Received mesh data, length: %u\<newline>'' [U (unat (payload_len pkt))],
                    Dump_hex data (payload_len pkt)]
              else [])"
  using assms by (simp add: mesh_route_packet_def mesh_data_handler_def printf_def)

theorem route_packet_local_delivery_witness:
  "dst_node (data_pkt 5 1 4) = local_node_id (routing_table node1) \<and>
   mesh_route_packet node1 (data_pkt 5 1 4) [1, 2, 3] = (True, node1, data_pkt 5 1 4)"
proof -
  have h1: "dst_node (data_pkt 5 1 4) = local_node_id (routing_table node1)"
    by (simp add: data_pkt_def node1_def mesh_init_def boot_def)
  have v: "mesh_data_handler node1 [1, 2, 3] (payload_len (data_pkt 5 1 4)) = node1"
    by (simp add: mesh_data_handler_def node1_def mesh_init_def boot_def)
  from route_packet_local_delivery [OF h1, of "[1, 2, 3]"] h1 v show ?thesis
    by simp
qed

text \<open>
  The forwarding branch. A packet that is not for this node, whose hop count is below
  \<open>MESH_MAX_HOPS\<close> and for whose destination \<^verbatim>\<open>mesh_find_route\<close> returns a next hop is
  forwarded: the call returns true and the header comes back with \<^verbatim>\<open>hop_count\<close> one higher
  (no wrap-around) and every other field as it was.
\<close>

lemma route_packet_forward:
  assumes "dst_node pkt \<noteq> local_node_id (routing_table s)"
    and "unat (pkt_hop_count pkt) < MESH_MAX_HOPS"
    and "0 \<le> mesh_find_route s (dst_node pkt)"
  shows "fst (mesh_route_packet s pkt data) = True \<and>
         snd (snd (mesh_route_packet s pkt data)) =
           pkt\<lparr>pkt_hop_count := pkt_hop_count pkt + 1\<rparr> \<and>
         unat (pkt_hop_count (snd (snd (mesh_route_packet s pkt data)))) =
           unat (pkt_hop_count pkt) + 1 \<and>
         src_node (snd (snd (mesh_route_packet s pkt data))) = src_node pkt \<and>
         dst_node (snd (snd (mesh_route_packet s pkt data))) = dst_node pkt \<and>
         seq_num (snd (snd (mesh_route_packet s pkt data))) = seq_num pkt \<and>
         routing_table (fst (snd (mesh_route_packet s pkt data))) = routing_table s"
  using assms by (simp add: mesh_route_packet_def Let_def unat_word_ariths printf_def)

subsection \<open>Beacon ingest\<close>

text \<open>
  C2, as the code has it. When \<^verbatim>\<open>node_count\<close> is \<open>MESH_MAX_NODES\<close> and none of the eight slots
  carries the beacon's node id, the pointer \<^verbatim>\<open>node\<close> stays \<^verbatim>\<open>NULL\<close> (\<open>select_node\<close> returns
  \<open>None\<close> and the table it was given) and \<^verbatim>\<open>mesh_update_routing_table\<close> leaves every variable
  as it was: the count, every slot and the console. The refusal is silent: the function
  is \<^verbatim>\<open>void\<close> and this path prints nothing.
\<close>

theorem update_refused_when_full:
  assumes "unat (node_count (routing_table s)) = MESH_MAX_NODES"
    and "\<forall>i<MESH_MAX_NODES. node_id (nodes (routing_table s) ! i) \<noteq> beacon_node_id b"
  shows "select_node (routing_table s) (beacon_node_id b) = (None, routing_table s) \<and>
         mesh_update_routing_table s us b = s"
proof -
  from assms have none: "find_existing (nodes (routing_table s)) (node_count (routing_table s))
             (beacon_node_id b) 0 = None"
    by (simp add: find_existing_None)
  with assms(1) show ?thesis
    by (simp add: update_routing_table_refused select_node_def)
qed

theorem update_refused_when_full_witness:
  "unat (node_count (routing_table table_full)) = MESH_MAX_NODES \<and>
   map node_id (nodes (routing_table table_full)) = [2, 3, 4, 5, 6, 7, 8, 9] \<and>
   mesh_update_routing_table table_full 5000000 (beacon_of 10 0) = table_full"
proof -
  have h1: "unat (node_count (routing_table table_full)) = MESH_MAX_NODES"
    by code_simp
  have ids: "map node_id (nodes (routing_table table_full)) = [2, 3, 4, 5, 6, 7, 8, 9]"
    by code_simp
  have h2: "\<forall>i<MESH_MAX_NODES.
      node_id (nodes (routing_table table_full) ! i) \<noteq> beacon_node_id (beacon_of 10 0)"
    by code_simp
  from update_refused_when_full [OF h1 h2, of 5000000] h1 ids show ?thesis
    by simp
qed

text \<open>
  C2 as stated fails in the error it names. At \<^verbatim>\<open>verbose\<close> = 2 a full table refuses the beacon
  of node 10: the variables after the call, console included, are the variables before
  it, and the function returns nothing. At the same table a beacon of the stored node 2 is
  accepted and prints its line. No error reaches the caller of the refused call.
\<close>

theorem update_refused_silently_counterexample:
  "verbose table_full_verbose = 2 \<and>
   unat (node_count (routing_table table_full_verbose)) = MESH_MAX_NODES \<and>
   map node_id (nodes (routing_table table_full_verbose)) = [2, 3, 4, 5, 6, 7, 8, 9] \<and>
   mesh_update_routing_table table_full_verbose 5000000 (beacon_of 10 0) = table_full_verbose \<and>
   console (mesh_update_routing_table table_full_verbose 5000000 (beacon_of 10 0)) =
     console table_full_verbose \<and>
   console (mesh_update_routing_table table_full_verbose 5000000 (beacon_of 2 0)) =
     console table_full_verbose @
       [Printf ''Updated routing table: node %u, hops %u\<newline>'' [U 2, U 1]]"
  by code_simp

text \<open>
  C1, as the code has it. The entry that \<^verbatim>\<open>mesh_update_routing_table\<close> creates or refreshes
  for the beacon's node id \<open>N\<close> (the first slot with that id, which the search loop finds
  afterwards) gets \<^verbatim>\<open>hop_count\<close> = the header's hop count plus one, modulo 256.
  \<^verbatim>\<open>next_hop\<close> becomes \<open>N\<close> when the header's hop count is 0, so that the entry's hop count is
  1; otherwise \<^verbatim>\<open>next_hop\<close> keeps the value the slot had. When no entry for \<open>N\<close> exists
  afterwards the call changed nothing (the table was full).
\<close>

theorem beacon_ingest_entry:
  assumes "wf_table (routing_table s)"
  shows "(let rt = routing_table s;
              s' = mesh_update_routing_table s us b;
              rt' = routing_table s';
              h = pkt_hop_count (hdr b)
          in case find_existing (nodes rt') (node_count rt') (beacon_node_id b) 0 of
               None \<Rightarrow> s' = s
             | Some k \<Rightarrow>
                 k < unat (node_count rt') \<and>
                 node_id (nodes rt' ! k) = beacon_node_id b \<and>
                 hop_count (nodes rt' ! k) = h + 1 \<and>
                 next_hop (nodes rt' ! k) =
                   (if h = 0 then beacon_node_id b else next_hop (nodes rt ! k)))"
proof -
  let ?rt = "routing_table s"
  let ?N = "beacon_node_id b"
  let ?c = "unat (node_count ?rt)"
  from assms have len: "length (nodes ?rt) = MESH_MAX_NODES" and c8: "?c \<le> 8"
    by (simp_all add: wf_table_def)
  note rt' = update_routing_table_rt [OF len, of us b]
  show ?thesis
  proof (cases "find_existing (nodes ?rt) (node_count ?rt) ?N 0")
    case (Some k)
    from find_existing_Some [OF Some]
    have k: "k < ?c" "node_id (nodes ?rt ! k) = ?N" "\<forall>j<k. node_id (nodes ?rt ! j) \<noteq> ?N"
      by auto
    from k c8 len have klen: "k < length (nodes ?rt)" by simp
    have "find_existing ((nodes ?rt)[k := update_node (us div 1000) b (nodes ?rt ! k)])
            (node_count ?rt) ?N 0 = Some k"
      using k klen by (intro find_existing_first) auto
    with Some rt' k klen show ?thesis
      by (simp add: Let_def update_node_def)
  next
    case None
    show ?thesis
    proof (cases "?c < MESH_MAX_NODES")
      case False
      with None have "mesh_update_routing_table s us b = s"
        by (rule update_routing_table_refused)
      with None show ?thesis by (simp add: Let_def)
    next
      case True
      then have c1: "unat (node_count ?rt + 1) = Suc ?c"
        by (simp add: unat_count_inc)
      from None have no: "\<forall>j<?c. node_id (nodes ?rt ! j) \<noteq> ?N"
        by (simp add: find_existing_None)
      from True len have clen: "?c < length (nodes ?rt)" by simp
      have "find_existing ((nodes ?rt)[?c := update_node (us div 1000) b
               ((nodes ?rt ! ?c)\<lparr>node_id := ?N\<rparr>)]) (node_count ?rt + 1) ?N 0 = Some ?c"
        using no clen c1 by (intro find_existing_first) auto
      with None True rt' clen c1 show ?thesis
        by (simp add: Let_def update_node_def)
    qed
  qed
qed

theorem beacon_ingest_entry_witness:
  "wf_table (routing_table node1) \<and>
   node_id (nodes (routing_table (mesh_update_routing_table node1 0 (beacon_of 2 0))) ! 0) = 2 \<and>
   hop_count (nodes (routing_table (mesh_update_routing_table node1 0 (beacon_of 2 0))) ! 0) = 1 \<and>
   next_hop (nodes (routing_table (mesh_update_routing_table node1 0 (beacon_of 2 0))) ! 0) = 2"
proof -
  have w: "wf_table (routing_table node1)"
    by code_simp
  have f: "find_existing (nodes (routing_table (mesh_update_routing_table node1 0 (beacon_of 2 0))))
             (node_count (routing_table (mesh_update_routing_table node1 0 (beacon_of 2 0))))
             (beacon_node_id (beacon_of 2 0)) 0 = Some 0"
    by code_simp
  have h: "pkt_hop_count (hdr (beacon_of 2 0)) = 0" "beacon_node_id (beacon_of 2 0) = 2"
    by (simp_all add: beacon_of_def)
  from beacon_ingest_entry [OF w, of 0 "beacon_of 2 0"] f h w show ?thesis
    by (simp add: Let_def)
qed

text \<open>
  C1 as stated fails: a beacon of node 5 whose header carries hop count 2 gives node 1 an
  entry for node 5 with hop count 3, and \<^verbatim>\<open>next_hop\<close> stays 0, the value of the cleared slot.
\<close>

theorem beacon_ingest_header_hops_counterexample:
  "node_id (nodes (routing_table (mesh_update_routing_table node1 0 (beacon_of 5 2))) ! 0) = 5 \<and>
   hop_count (nodes (routing_table (mesh_update_routing_table node1 0 (beacon_of 5 2))) ! 0) = 3 \<and>
   next_hop (nodes (routing_table (mesh_update_routing_table node1 0 (beacon_of 5 2))) ! 0) = 0 \<and>
   \<not> (hop_count (nodes (routing_table (mesh_update_routing_table node1 0 (beacon_of 5 2))) ! 0) = 1 \<and>
      next_hop (nodes (routing_table (mesh_update_routing_table node1 0 (beacon_of 5 2))) ! 0) = 5)"
  by code_simp

subsection \<open>Invariants of the routing table\<close>

text \<open>
  C8. After \<^verbatim>\<open>mesh_init\<close> and any sequence of calls (beacon ingests in particular, in any
  order and with any clock values, also mixed with sweeps and the other functions), no
  two different slots of the array are both active and carry the same node id.
\<close>

theorem active_ids_unique:
  "\<forall>i<MESH_MAX_NODES. \<forall>j<MESH_MAX_NODES.
     i \<noteq> j \<and>
     is_active (nodes (routing_table (run (snd (mesh_init s0 nid name)) ops)) ! i) \<and>
     is_active (nodes (routing_table (run (snd (mesh_init s0 nid name)) ops)) ! j) \<longrightarrow>
     node_id (nodes (routing_table (run (snd (mesh_init s0 nid name)) ops)) ! i) \<noteq>
     node_id (nodes (routing_table (run (snd (mesh_init s0 nid name)) ops)) ! j)"
proof -
  let ?rt = "routing_table (run (snd (mesh_init s0 nid name)) ops)"
  have inv: "table_inv ?rt"
    by (rule run_table_inv) (rule table_inv_init)
  show ?thesis
  proof (intro allI impI)
    fix i j
    assume i: "i < MESH_MAX_NODES" and j: "j < MESH_MAX_NODES"
      and a: "i \<noteq> j \<and> is_active (nodes ?rt ! i) \<and> is_active (nodes ?rt ! j)"
    from inv i a have "i < unat (node_count ?rt)"
      unfolding table_inv_def by (meson not_le)
    moreover from inv j a have "j < unat (node_count ?rt)"
      unfolding table_inv_def by (meson not_le)
    ultimately show "node_id (nodes ?rt ! i) \<noteq> node_id (nodes ?rt ! j)"
      using inv a unfolding table_inv_def by blast
  qed
qed

theorem active_ids_unique_witness:
  "is_active (nodes (routing_table (run node1
      [Mesh_update_routing_table 0 (beacon_of 2 0),
       Mesh_update_routing_table 1000 (beacon_of 3 0),
       Mesh_update_routing_table 2000 (beacon_of 2 0)])) ! 0) \<and>
   is_active (nodes (routing_table (run node1
      [Mesh_update_routing_table 0 (beacon_of 2 0),
       Mesh_update_routing_table 1000 (beacon_of 3 0),
       Mesh_update_routing_table 2000 (beacon_of 2 0)])) ! 1) \<and>
   node_id (nodes (routing_table (run node1
      [Mesh_update_routing_table 0 (beacon_of 2 0),
       Mesh_update_routing_table 1000 (beacon_of 3 0),
       Mesh_update_routing_table 2000 (beacon_of 2 0)])) ! 0) \<noteq>
   node_id (nodes (routing_table (run node1
      [Mesh_update_routing_table 0 (beacon_of 2 0),
       Mesh_update_routing_table 1000 (beacon_of 3 0),
       Mesh_update_routing_table 2000 (beacon_of 2 0)])) ! 1)"
proof -
  let ?ops = "[Mesh_update_routing_table 0 (beacon_of 2 0),
       Mesh_update_routing_table 1000 (beacon_of 3 0),
       Mesh_update_routing_table 2000 (beacon_of 2 0)]"
  have a0: "is_active (nodes (routing_table (run node1 ?ops)) ! 0)"
    by code_simp
  have a1: "is_active (nodes (routing_table (run node1 ?ops)) ! 1)"
    by code_simp
  from active_ids_unique [of "boot 0" 1 "''PicoNode1''" ?ops, folded node1_def] a0 a1
  show ?thesis by simp
qed

text \<open>
  C10. After \<^verbatim>\<open>mesh_init\<close> (which sets \<^verbatim>\<open>node_count\<close> to 0) and any sequence \<open>ops\<close> of calls, the
  count \<open>c\<close> is at most \<open>MESH_MAX_NODES\<close>. One more call \<open>op\<close> gives a count \<open>c'\<close> with
  \<open>c \<le> c' \<le> MESH_MAX_NODES\<close>; the count changes only in a call of
  \<^verbatim>\<open>mesh_update_routing_table\<close> that finds no entry for the beacon's id while \<open>c\<close> is below
  \<open>MESH_MAX_NODES\<close>, and such a call raises it by exactly one. Every stored entry keeps its
  slot and its node id, and no later sequence of calls brings the count below \<open>c\<close>.
\<close>

theorem node_count_bounded_monotone:
  "(let s = run (snd (mesh_init s0 nid name)) ops;
        s' = step s op;
        c = unat (node_count (routing_table s));
        c' = unat (node_count (routing_table s'))
    in node_count (routing_table (snd (mesh_init s0 nid name))) = 0 \<and>
       c \<le> MESH_MAX_NODES \<and> c \<le> c' \<and> c' \<le> MESH_MAX_NODES \<and>
       (c' \<noteq> c \<longrightarrow>
          c' = c + 1 \<and> c < MESH_MAX_NODES \<and>
          (\<exists>us b. op = Mesh_update_routing_table us b \<and>
             find_existing (nodes (routing_table s)) (node_count (routing_table s))
               (beacon_node_id b) 0 = None)) \<and>
       (\<forall>us b. op = Mesh_update_routing_table us b \<and>
           find_existing (nodes (routing_table s)) (node_count (routing_table s))
             (beacon_node_id b) 0 = None \<and> c < MESH_MAX_NODES \<longrightarrow> c' = c + 1) \<and>
       (\<forall>i<c. node_id (nodes (routing_table s') ! i) = node_id (nodes (routing_table s) ! i)) \<and>
       c \<le> unat (node_count (routing_table (run s later))))"
proof -
  let ?s = "run (snd (mesh_init s0 nid name)) ops"
  have wf: "wf_table (routing_table ?s)"
    by (rule run_wf) (rule wf_table_init)
  have wf': "wf_table (routing_table (step ?s op))"
    using wf by (rule step_wf)
  have z: "node_count (routing_table (snd (mesh_init s0 nid name))) = 0"
    by (simp add: mesh_init_def Let_def)
  from wf wf' z step_node_count [OF wf, of op] run_count_mono [OF wf, of later]
  show ?thesis
    unfolding Let_def wf_table_def by blast
qed

theorem node_count_bounded_monotone_witness:
  "unat (node_count (routing_table (run node1 [Mesh_update_routing_table 0 (beacon_of 2 0)]))) = 1 \<and>
   unat (node_count (routing_table
     (step (run node1 [Mesh_update_routing_table 0 (beacon_of 2 0)])
        (Mesh_update_routing_table 1000 (beacon_of 3 0))))) = 2 \<and>
   node_id (nodes (routing_table
     (step (run node1 [Mesh_update_routing_table 0 (beacon_of 2 0)])
        (Mesh_update_routing_table 1000 (beacon_of 3 0)))) ! 0) =
   node_id (nodes (routing_table (run node1 [Mesh_update_routing_table 0 (beacon_of 2 0)])) ! 0)"
proof -
  let ?s = "run node1 [Mesh_update_routing_table 0 (beacon_of 2 0)]"
  let ?op = "Mesh_update_routing_table 1000 (beacon_of 3 0)"
  have c: "unat (node_count (routing_table ?s)) = 1"
    by code_simp
  have f: "find_existing (nodes (routing_table ?s)) (node_count (routing_table ?s))
             (beacon_node_id (beacon_of 3 0)) 0 = None"
    by code_simp
  note T = node_count_bounded_monotone [of "boot 0" 1 "''PicoNode1''"
      "[Mesh_update_routing_table 0 (beacon_of 2 0)]" ?op "[]", unfolded Let_def,
      folded node1_def]
  note T6 = T [THEN conjunct2, THEN conjunct2, THEN conjunct2, THEN conjunct2, THEN conjunct2,
      THEN conjunct1, rule_format, of 1000 "beacon_of 3 0"]
  note T7 = T [THEN conjunct2, THEN conjunct2, THEN conjunct2, THEN conjunct2, THEN conjunct2,
      THEN conjunct2, THEN conjunct1, rule_format, of 0]
  from T6 f c have c': "unat (node_count (routing_table (step ?s ?op))) = 2"
    by simp
  from T7 c have "node_id (nodes (routing_table (step ?s ?op)) ! 0) =
       node_id (nodes (routing_table ?s) ! 0)"
    by simp
  with c c' show ?thesis by simp
qed

text \<open>
  C3, as the code has it. \<^verbatim>\<open>mesh_update_routing_table\<close> does not compare the beacon's node id
  with \<^verbatim>\<open>local_node_id\<close>. After \<^verbatim>\<open>mesh_init\<close> with node id \<open>nid\<close> and any sequence of calls in
  which no ingested beacon carries \<open>nid\<close> as its node id, \<^verbatim>\<open>local_node_id\<close> is still \<open>nid\<close> and
  no stored entry carries it.
\<close>

theorem local_id_absent:
  assumes "\<forall>us b. Mesh_update_routing_table us b \<in> set ops \<longrightarrow> beacon_node_id b \<noteq> nid"
  shows "local_node_id (routing_table (run (snd (mesh_init s0 nid name)) ops)) = nid \<and>
         (\<forall>i<unat (node_count (routing_table (run (snd (mesh_init s0 nid name)) ops))).
            node_id (nodes (routing_table (run (snd (mesh_init s0 nid name)) ops)) ! i) \<noteq>
            local_node_id (routing_table (run (snd (mesh_init s0 nid name)) ops)))"
proof -
  let ?s = "snd (mesh_init s0 nid name)"
  have wf: "wf_table (routing_table ?s)" by (rule wf_table_init)
  have e: "\<forall>i<unat (node_count (routing_table ?s)). node_id (nodes (routing_table ?s) ! i) \<noteq> nid"
    by (simp add: mesh_init_def Let_def)
  have l: "local_node_id (routing_table ?s) = nid"
    by (simp add: mesh_init_def Let_def)
  from run_local_absent [OF wf e assms] l show ?thesis by simp
qed

theorem local_id_absent_witness:
  "unat (node_count (routing_table (run node1
      [Mesh_update_routing_table 0 (beacon_of 2 0),
       Mesh_beacon_handler 1000 1000,
       Mesh_update_routing_table 2000 (beacon_of 3 0)]))) = 2 \<and>
   node_id (nodes (routing_table (run node1
      [Mesh_update_routing_table 0 (beacon_of 2 0),
       Mesh_beacon_handler 1000 1000,
       Mesh_update_routing_table 2000 (beacon_of 3 0)])) ! 0) \<noteq> 1 \<and>
   node_id (nodes (routing_table (run node1
      [Mesh_update_routing_table 0 (beacon_of 2 0),
       Mesh_beacon_handler 1000 1000,
       Mesh_update_routing_table 2000 (beacon_of 3 0)])) ! 1) \<noteq> 1"
proof -
  let ?ops = "[Mesh_update_routing_table 0 (beacon_of 2 0),
       Mesh_beacon_handler 1000 1000,
       Mesh_update_routing_table 2000 (beacon_of 3 0)]"
  have h: "\<forall>us b. Mesh_update_routing_table us b \<in> set ?ops \<longrightarrow> beacon_node_id b \<noteq> 1"
    by (auto simp: beacon_of_def)
  have c: "unat (node_count (routing_table (run node1 ?ops))) = 2"
    by code_simp
  note T = local_id_absent [OF h, of "boot 0" "''PicoNode1''", folded node1_def]
  note l = T [THEN conjunct1]
  note T0 = T [THEN conjunct2, rule_format, of 0]
  note T1 = T [THEN conjunct2, rule_format, of 1]
  from T0 c l have n0: "node_id (nodes (routing_table (run node1 ?ops)) ! 0) \<noteq> 1"
    by simp
  from T1 c l have n1: "node_id (nodes (routing_table (run node1 ?ops)) ! 1) \<noteq> 1"
    by simp
  from c n0 n1 show ?thesis by simp
qed

text \<open>
  C3 as stated fails: node 1 ingests a beacon whose node id is 1 and stores an active
  entry for its own id.
\<close>

theorem local_id_ingested_counterexample:
  "local_node_id (routing_table (run node1 [Mesh_update_routing_table 0 (beacon_of 1 0)])) = 1 \<and>
   unat (node_count (routing_table (run node1 [Mesh_update_routing_table 0 (beacon_of 1 0)]))) = 1 \<and>
   node_id (nodes (routing_table (run node1 [Mesh_update_routing_table 0 (beacon_of 1 0)])) ! 0) = 1 \<and>
   is_active (nodes (routing_table (run node1 [Mesh_update_routing_table 0 (beacon_of 1 0)])) ! 0)"
  by code_simp

subsection \<open>Neighbour expiry\<close>

text \<open>
  The sweep is the loop at the head of \<^verbatim>\<open>mesh_beacon_handler\<close>. While mesh networking is
  disabled the handler returns before it. While it is enabled, this is every slot after
  the call, with the test of the code: the difference of the two \<^verbatim>\<open>uint32_t\<close> times.
\<close>

lemma beacon_handler_disabled:
  "\<not> mesh_enabled s \<Longrightarrow> mesh_beacon_handler s us us2 = s"
  by (simp add: mesh_beacon_handler_def)

lemma beacon_handler_table:
  assumes "mesh_enabled s" and "i < length (nodes (routing_table s))"
  shows "nodes (routing_table (mesh_beacon_handler s us us2)) ! i =
           (if i < unat (node_count (routing_table s)) \<and>
               is_active (nodes (routing_table s) ! i) \<and>
               MESH_ROUTE_TIMEOUT < us div 1000 - last_update (nodes (routing_table s) ! i)
            then (nodes (routing_table s) ! i)\<lparr>is_active := False\<rparr>
            else nodes (routing_table s) ! i)"
proof -
  from assms(1) have "routing_table (mesh_beacon_handler s us us2) =
      routing_table (stale_routes s (us div 1000) 0)"
    by (simp add: mesh_beacon_handler_def Let_def)
  with stale_routes_nth [OF assms(2), of "us div 1000" 0] show ?thesis by simp
qed

text \<open>Where the subtraction does not wrap, the test is the one on the integers.\<close>

lemma word_diff_no_wrap:
  "(b::u32) \<le> a \<Longrightarrow> (t < a - b) = (uint t < uint a - uint b)"
  by (simp add: word_less_def word_le_def uint_sub_lem [THEN iffD1])

text \<open>
  C6, as the code has it by design. While mesh networking is enabled, the call of
  \<^verbatim>\<open>mesh_beacon_handler\<close> with the clock at \<open>us\<close> microseconds (\<open>now = us div 1000\<close>) keeps the
  count, the local id and the number of slots, and changes no field of any slot but
  \<^verbatim>\<open>is_active\<close>. In every slot whose \<^verbatim>\<open>last_update\<close> is not later than \<open>now\<close>, \<^verbatim>\<open>is_active\<close> is
  cleared exactly when the slot is a stored entry that was active with
  \<open>now - last_update > MESH_ROUTE_TIMEOUT\<close>, the difference of the two numbers. Nothing is
  said of \<^verbatim>\<open>is_active\<close> in a slot stamped later than \<open>now\<close>.
\<close>

theorem beacon_handler_sweep_enabled:
  assumes "mesh_enabled s"
  shows "node_count (routing_table (mesh_beacon_handler s us us2)) = node_count (routing_table s) \<and>
      local_node_id (routing_table (mesh_beacon_handler s us us2)) =
        local_node_id (routing_table s) \<and>
      length (nodes (routing_table (mesh_beacon_handler s us us2))) =
        length (nodes (routing_table s)) \<and>
      (\<forall>i<length (nodes (routing_table s)).
         (nodes (routing_table (mesh_beacon_handler s us us2)) ! i)
           \<lparr>is_active := is_active (nodes (routing_table s) ! i)\<rparr> =
         nodes (routing_table s) ! i \<and>
         (last_update (nodes (routing_table s) ! i) \<le> us div 1000 \<longrightarrow>
            is_active (nodes (routing_table (mesh_beacon_handler s us us2)) ! i) =
              (is_active (nodes (routing_table s) ! i) \<and>
               \<not> (i < unat (node_count (routing_table s)) \<and>
                  uint MESH_ROUTE_TIMEOUT <
                    uint (us div 1000) - uint (last_update (nodes (routing_table s) ! i))))))"
proof -
  from assms have rt: "routing_table (mesh_beacon_handler s us us2) =
      routing_table (stale_routes s (us div 1000) 0)"
    by (simp add: mesh_beacon_handler_def Let_def)
  have slot: "(nodes (routing_table (mesh_beacon_handler s us us2)) ! i)
           \<lparr>is_active := is_active (nodes (routing_table s) ! i)\<rparr> =
         nodes (routing_table s) ! i \<and>
         (last_update (nodes (routing_table s) ! i) \<le> us div 1000 \<longrightarrow>
            is_active (nodes (routing_table (mesh_beacon_handler s us us2)) ! i) =
              (is_active (nodes (routing_table s) ! i) \<and>
               \<not> (i < unat (node_count (routing_table s)) \<and>
                  uint MESH_ROUTE_TIMEOUT <
                    uint (us div 1000) - uint (last_update (nodes (routing_table s) ! i)))))"
    if i: "i < length (nodes (routing_table s))" for i
  proof (intro conjI impI)
    show "(nodes (routing_table (mesh_beacon_handler s us us2)) ! i)
           \<lparr>is_active := is_active (nodes (routing_table s) ! i)\<rparr> =
         nodes (routing_table s) ! i"
      using beacon_handler_table [OF assms i, of us us2] by simp
  next
    assume le: "last_update (nodes (routing_table s) ! i) \<le> us div 1000"
    from word_diff_no_wrap [OF le, of MESH_ROUTE_TIMEOUT]
      beacon_handler_table [OF assms i, of us us2]
    show "is_active (nodes (routing_table (mesh_beacon_handler s us us2)) ! i) =
              (is_active (nodes (routing_table s) ! i) \<and>
               \<not> (i < unat (node_count (routing_table s)) \<and>
                  uint MESH_ROUTE_TIMEOUT <
                    uint (us div 1000) - uint (last_update (nodes (routing_table s) ! i))))"
      by auto
  qed
  from rt slot stale_routes_frame [of s "us div 1000" 0] show ?thesis
    by simp
qed

theorem beacon_handler_sweep_enabled_witness:
  "mesh_enabled two_neighbours \<and>
   is_active (nodes (routing_table two_neighbours) ! 0) \<and>
   is_active (nodes (routing_table two_neighbours) ! 1) \<and>
   last_update (nodes (routing_table two_neighbours) ! 0) \<le> 60000000 div 1000 \<and>
   last_update (nodes (routing_table two_neighbours) ! 1) \<le> 60000000 div 1000 \<and>
   \<not> is_active (nodes (routing_table (mesh_beacon_handler two_neighbours 60000000 60000000)) ! 0) \<and>
   is_active (nodes (routing_table (mesh_beacon_handler two_neighbours 60000000 60000000)) ! 1)"
proof -
  let ?rt = "routing_table two_neighbours"
  have en: "mesh_enabled two_neighbours"
    by code_simp
  have a0: "is_active (nodes ?rt ! 0)" and a1: "is_active (nodes ?rt ! 1)"
    by code_simp+
  have len: "0 < length (nodes ?rt)" "1 < length (nodes ?rt)"
    by code_simp+
  have cnt: "0 < unat (node_count ?rt)"
    by code_simp
  have le0: "last_update (nodes ?rt ! 0) \<le> 60000000 div 1000"
    and le1: "last_update (nodes ?rt ! 1) \<le> 60000000 div 1000"
    by code_simp+
  have old: "uint MESH_ROUTE_TIMEOUT <
      uint ((60000000 :: u32) div 1000) - uint (last_update (nodes ?rt ! 0))"
    by code_simp
  have fresh: "\<not> uint MESH_ROUTE_TIMEOUT <
      uint ((60000000 :: u32) div 1000) - uint (last_update (nodes ?rt ! 1))"
    by code_simp
  note T = beacon_handler_sweep_enabled [OF en, of 60000000 60000000]
  note N = T [THEN conjunct2, THEN conjunct2, THEN conjunct2, rule_format]
  from N [OF len(1), THEN conjunct2, THEN mp, OF le0] cnt a0 old
  have "\<not> is_active (nodes (routing_table (mesh_beacon_handler two_neighbours 60000000 60000000)) ! 0)"
    by simp
  moreover from N [OF len(2), THEN conjunct2, THEN mp, OF le1] a1 fresh
  have "is_active (nodes (routing_table (mesh_beacon_handler two_neighbours 60000000 60000000)) ! 1)"
    by simp
  ultimately show ?thesis using en a0 a1 le0 le1 by simp
qed

text \<open>
  C6 as stated fails while mesh networking is disabled: node 1, initialised but not
  enabled, holds an active entry refreshed at time 0; the handler called at 60 s leaves it
  active.
\<close>

theorem beacon_handler_disabled_counterexample:
  "\<not> mesh_enabled (run node1 [Mesh_update_routing_table 0 (beacon_of 2 0)]) \<and>
   is_active (nodes (routing_table (run node1 [Mesh_update_routing_table 0 (beacon_of 2 0)])) ! 0) \<and>
   last_update (nodes (routing_table (run node1 [Mesh_update_routing_table 0 (beacon_of 2 0)])) ! 0)
     \<le> 60000000 div 1000 \<and>
   uint MESH_ROUTE_TIMEOUT <
     uint ((60000000 :: u32) div 1000) -
     uint (last_update
       (nodes (routing_table (run node1 [Mesh_update_routing_table 0 (beacon_of 2 0)])) ! 0)) \<and>
   is_active (nodes (routing_table
     (mesh_beacon_handler (run node1 [Mesh_update_routing_table 0 (beacon_of 2 0)])
        60000000 60000000)) ! 0)"
  by code_simp

text \<open>
  A slot stamped later than \<open>now\<close> arises when the microsecond clock wraps:
  \<^verbatim>\<open>time_us_32() / 1000\<close> falls from 4294967 to 0, and the code subtracts after the
  division. A beacon ingested at clock value 4294967295 is stamped 4294967; the handler
  at clock value 5000, about 5 ms later, computes \<open>5 - 4294967\<close> in \<^verbatim>\<open>uint32_t\<close> and clears
  the entry.
\<close>

lemma sweep_after_clock_wrap:
  "mesh_enabled (run node1_enabled [Mesh_update_routing_table 4294967295 (beacon_of 2 0)]) \<and>
   is_active (nodes (routing_table
     (run node1_enabled [Mesh_update_routing_table 4294967295 (beacon_of 2 0)])) ! 0) \<and>
   last_update (nodes (routing_table
     (run node1_enabled [Mesh_update_routing_table 4294967295 (beacon_of 2 0)])) ! 0) = 4294967 \<and>
   \<not> is_active (nodes (routing_table
     (mesh_beacon_handler
        (run node1_enabled [Mesh_update_routing_table 4294967295 (beacon_of 2 0)])
        5000 5000)) ! 0)"
  by code_simp

subsection \<open>Route lookup\<close>

text \<open>Three steps of a search for the first least element, as the loop takes them.\<close>

lemma min_search_take:
  fixes h :: "nat \<Rightarrow> u8"
  assumes ci: "c i" and hi: "h i < m" and i: "i < n"
    and ih: "(r = i \<and> (\<forall>j. Suc i \<le> j \<and> j < n \<and> c j \<longrightarrow> \<not> h j < h i)) \<or>
       (Suc i \<le> r \<and> r < n \<and> c r \<and> h r < h i \<and>
        (\<forall>j. Suc i \<le> j \<and> j < n \<and> c j \<longrightarrow> h r \<le> h j) \<and>
        (\<forall>j. Suc i \<le> j \<and> j < r \<and> c j \<longrightarrow> h r < h j))"
  shows "i \<le> r \<and> r < n \<and> c r \<and> h r < m \<and>
       (\<forall>j. i \<le> j \<and> j < n \<and> c j \<longrightarrow> h r \<le> h j) \<and>
       (\<forall>j. i \<le> j \<and> j < r \<and> c j \<longrightarrow> h r < h j)"
  using ih
proof (elim disjE conjE)
  assume r: "r = i" and a: "\<forall>j. Suc i \<le> j \<and> j < n \<and> c j \<longrightarrow> \<not> h j < h i"
  have "h r \<le> h j" if "i \<le> j \<and> j < n \<and> c j" for j
  proof (cases "j = i")
    case True
    with r show ?thesis by simp
  next
    case False
    with that have "Suc i \<le> j" by simp
    with a that r show ?thesis by (simp add: not_less)
  qed
  with r ci hi i show ?thesis by auto
next
  assume b: "Suc i \<le> r" "r < n" "c r" "h r < h i"
    and mn: "\<forall>j. Suc i \<le> j \<and> j < n \<and> c j \<longrightarrow> h r \<le> h j"
    and fs: "\<forall>j. Suc i \<le> j \<and> j < r \<and> c j \<longrightarrow> h r < h j"
  have 1: "h r \<le> h j" if "i \<le> j \<and> j < n \<and> c j" for j
  proof (cases "j = i")
    case True
    with b show ?thesis by simp
  next
    case False
    with that have "Suc i \<le> j" by simp
    with mn that show ?thesis by simp
  qed
  have 2: "h r < h j" if "i \<le> j \<and> j < r \<and> c j" for j
  proof (cases "j = i")
    case True
    with b show ?thesis by simp
  next
    case False
    with that have "Suc i \<le> j" by simp
    with fs that show ?thesis by simp
  qed
  from b hi have "h r < m" by simp
  with b 1 2 show ?thesis by simp
qed

lemma min_search_skip_none:
  fixes h :: "nat \<Rightarrow> u8"
  assumes "\<not> (c i \<and> h i < m)"
    and "\<forall>j. Suc i \<le> j \<and> j < n \<and> c j \<longrightarrow> \<not> h j < m"
  shows "\<forall>j. i \<le> j \<and> j < n \<and> c j \<longrightarrow> \<not> h j < m"
proof (intro allI impI)
  fix j
  assume j: "i \<le> j \<and> j < n \<and> c j"
  show "\<not> h j < m"
  proof (cases "j = i")
    case True
    with assms(1) j show ?thesis by simp
  next
    case False
    with j have "Suc i \<le> j" by simp
    with assms(2) j show ?thesis by simp
  qed
qed

lemma min_search_skip_some:
  fixes h :: "nat \<Rightarrow> u8"
  assumes n: "\<not> (c i \<and> h i < m)"
    and b: "Suc i \<le> r" "r < n" "c r" "h r < m"
    and mn: "\<forall>j. Suc i \<le> j \<and> j < n \<and> c j \<longrightarrow> h r \<le> h j"
    and fs: "\<forall>j. Suc i \<le> j \<and> j < r \<and> c j \<longrightarrow> h r < h j"
  shows "i \<le> r \<and> r < n \<and> c r \<and> h r < m \<and>
       (\<forall>j. i \<le> j \<and> j < n \<and> c j \<longrightarrow> h r \<le> h j) \<and>
       (\<forall>j. i \<le> j \<and> j < r \<and> c j \<longrightarrow> h r < h j)"
proof -
  have 0: "h r < h i" if "c i"
    using that n b(4) by (simp add: not_less)
  have 1: "h r \<le> h j" if "i \<le> j \<and> j < n \<and> c j" for j
  proof (cases "j = i")
    case True
    with 0 that show ?thesis by simp
  next
    case False
    with that have "Suc i \<le> j" by simp
    with mn that show ?thesis by simp
  qed
  have 2: "h r < h j" if "i \<le> j \<and> j < r \<and> c j" for j
  proof (cases "j = i")
    case True
    with 0 that show ?thesis by simp
  next
    case False
    with that have "Suc i \<le> j" by simp
    with fs that show ?thesis by simp
  qed
  from b 1 2 show ?thesis by simp
qed

text \<open>
  The loop of \<^verbatim>\<open>mesh_find_route\<close>, started at index \<open>i\<close> with \<^verbatim>\<open>best_node\<close> = \<open>best\<close> and
  \<^verbatim>\<open>min_hops\<close> = \<open>m\<close>: it keeps \<open>best\<close> when no matching active slot from \<open>i\<close> on has a hop
  count below \<open>m\<close>, and otherwise returns the first such slot of least hop count.
\<close>

lemma find_route_loop_spec:
  "case find_route_loop ns cnt dst i best m of
     None \<Rightarrow>
       best = None \<and>
       (\<forall>j. unat i \<le> j \<and> j < unat cnt \<and> (node_id (ns ! j) = dst \<and> is_active (ns ! j)) \<longrightarrow>
            \<not> hop_count (ns ! j) < m)
   | Some r \<Rightarrow>
       (best = Some r \<and>
        (\<forall>j. unat i \<le> j \<and> j < unat cnt \<and> (node_id (ns ! j) = dst \<and> is_active (ns ! j)) \<longrightarrow>
             \<not> hop_count (ns ! j) < m)) \<or>
       (unat i \<le> r \<and> r < unat cnt \<and> (node_id (ns ! r) = dst \<and> is_active (ns ! r)) \<and>
        hop_count (ns ! r) < m \<and>
        (\<forall>j. unat i \<le> j \<and> j < unat cnt \<and> (node_id (ns ! j) = dst \<and> is_active (ns ! j)) \<longrightarrow>
             hop_count (ns ! r) \<le> hop_count (ns ! j)) \<and>
        (\<forall>j. unat i \<le> j \<and> j < r \<and> (node_id (ns ! j) = dst \<and> is_active (ns ! j)) \<longrightarrow>
             hop_count (ns ! r) < hop_count (ns ! j)))"
proof (induction ns cnt dst i best m rule: find_route_loop.induct)
  case (1 ns cnt dst i best m)
  let ?c = "\<lambda>j. node_id (ns ! j) = dst \<and> is_active (ns ! j)"
  let ?h = "\<lambda>j. hop_count (ns ! j)"
  show ?case
  proof (cases "i < cnt")
    case False
    then show ?thesis
      by (subst find_route_loop.simps) (auto simp: word_less_nat_alt split: option.splits)
  next
    case lt: True
    then have i1: "unat (i + 1) = Suc (unat i)" by (rule unat_inc)
    from lt have ic: "unat i < unat cnt" by (simp add: word_less_nat_alt)
    show ?thesis
    proof (cases "?c (unat i) \<and> ?h (unat i) < m")
      case True
      then have c: "node_id (ns ! unat i) = dst \<and> is_active (ns ! unat i) \<and>
          hop_count (ns ! unat i) < m" by simp
      have eq: "find_route_loop ns cnt dst i best m =
          find_route_loop ns cnt dst (i + 1) (Some (unat i)) (hop_count (ns ! unat i))"
        using lt c by (subst find_route_loop.simps) simp
      show ?thesis
      proof (cases "find_route_loop ns cnt dst (i + 1) (Some (unat i)) (hop_count (ns ! unat i))")
        case None
        with "1.IH"(1) [OF lt c] show ?thesis by simp
      next
        case (Some r)
        with "1.IH"(1) [OF lt c] i1
        have "(r = unat i \<and>
                (\<forall>j. Suc (unat i) \<le> j \<and> j < unat cnt \<and> ?c j \<longrightarrow> \<not> ?h j < ?h (unat i))) \<or>
              (Suc (unat i) \<le> r \<and> r < unat cnt \<and> ?c r \<and> ?h r < ?h (unat i) \<and>
                (\<forall>j. Suc (unat i) \<le> j \<and> j < unat cnt \<and> ?c j \<longrightarrow> ?h r \<le> ?h j) \<and>
                (\<forall>j. Suc (unat i) \<le> j \<and> j < r \<and> ?c j \<longrightarrow> ?h r < ?h j))"
          by auto
        from min_search_take [of ?c "unat i" ?h m "unat cnt" r, OF _ _ ic this] c
        show ?thesis
          unfolding eq Some by simp
      qed
    next
      case False
      then have c: "\<not> (node_id (ns ! unat i) = dst \<and> is_active (ns ! unat i) \<and>
          hop_count (ns ! unat i) < m)" by simp
      have eq: "find_route_loop ns cnt dst i best m =
          find_route_loop ns cnt dst (i + 1) best m"
        using lt c by (subst find_route_loop.simps) auto
      show ?thesis
      proof (cases "find_route_loop ns cnt dst (i + 1) best m")
        case None
        with "1.IH"(2) [OF lt c] i1
        have b: "best = None"
          and a: "\<forall>j. Suc (unat i) \<le> j \<and> j < unat cnt \<and> ?c j \<longrightarrow> \<not> ?h j < m"
          by auto
        from min_search_skip_none [of ?c "unat i" ?h m "unat cnt", OF _ a] False b
        show ?thesis
          unfolding eq None by simp
      next
        case (Some r)
        with "1.IH"(2) [OF lt c] i1
        have d: "(best = Some r \<and>
                (\<forall>j. Suc (unat i) \<le> j \<and> j < unat cnt \<and> ?c j \<longrightarrow> \<not> ?h j < m)) \<or>
              (Suc (unat i) \<le> r \<and> r < unat cnt \<and> ?c r \<and> ?h r < m \<and>
                (\<forall>j. Suc (unat i) \<le> j \<and> j < unat cnt \<and> ?c j \<longrightarrow> ?h r \<le> ?h j) \<and>
                (\<forall>j. Suc (unat i) \<le> j \<and> j < r \<and> ?c j \<longrightarrow> ?h r < ?h j))"
          by auto
        then show ?thesis
        proof
          assume k: "best = Some r \<and>
                (\<forall>j. Suc (unat i) \<le> j \<and> j < unat cnt \<and> ?c j \<longrightarrow> \<not> ?h j < m)"
          from min_search_skip_none [of ?c "unat i" ?h m "unat cnt"] False k
          show ?thesis
            unfolding eq Some by simp
        next
          assume k: "Suc (unat i) \<le> r \<and> r < unat cnt \<and> ?c r \<and> ?h r < m \<and>
                (\<forall>j. Suc (unat i) \<le> j \<and> j < unat cnt \<and> ?c j \<longrightarrow> ?h r \<le> ?h j) \<and>
                (\<forall>j. Suc (unat i) \<le> j \<and> j < r \<and> ?c j \<longrightarrow> ?h r < ?h j)"
          from min_search_skip_some [of ?c "unat i" ?h m r "unat cnt"] False k
          show ?thesis
            unfolding eq Some by simp
        qed
      qed
    qed
  qed
qed

text \<open>
  \<^verbatim>\<open>mesh_find_route\<close> on every table: when some stored active entry for the destination has
  a hop count below 255, the result is the \<^verbatim>\<open>next_hop\<close> of the first such entry of least hop
  count; otherwise the result is -1.
\<close>

lemma mesh_find_route_spec:
  "(let rt = routing_table s; c = unat (node_count rt)
    in if \<exists>j<c. node_id (nodes rt ! j) = dst \<and> is_active (nodes rt ! j) \<and>
                 hop_count (nodes rt ! j) < 255
       then \<exists>r<c. node_id (nodes rt ! r) = dst \<and> is_active (nodes rt ! r) \<and>
              mesh_find_route s dst = uint (next_hop (nodes rt ! r)) \<and>
              (\<forall>j<c. node_id (nodes rt ! j) = dst \<and> is_active (nodes rt ! j) \<longrightarrow>
                     hop_count (nodes rt ! r) \<le> hop_count (nodes rt ! j)) \<and>
              (\<forall>j<r. node_id (nodes rt ! j) = dst \<and> is_active (nodes rt ! j) \<longrightarrow>
                     hop_count (nodes rt ! r) < hop_count (nodes rt ! j))
       else mesh_find_route s dst = - 1)"
proof -
  let ?rt = "routing_table s"
  let ?ns = "nodes ?rt"
  note spec = find_route_loop_spec [where ns = ?ns and cnt = "node_count ?rt" and dst = dst
      and i = 0 and best = None and m = 255]
  show ?thesis
  proof (cases "find_route_loop ?ns (node_count ?rt) dst 0 None 255")
    case None
    with spec have "\<forall>j<unat (node_count ?rt).
        node_id (?ns ! j) = dst \<and> is_active (?ns ! j) \<longrightarrow> \<not> hop_count (?ns ! j) < 255"
      by simp
    with None show ?thesis
      by (auto simp: mesh_find_route_def Let_def)
  next
    case (Some r)
    with spec have r: "r < unat (node_count ?rt)" "node_id (?ns ! r) = dst" "is_active (?ns ! r)"
        "hop_count (?ns ! r) < 255"
      and mn: "\<forall>j<unat (node_count ?rt). node_id (?ns ! j) = dst \<and> is_active (?ns ! j) \<longrightarrow>
                     hop_count (?ns ! r) \<le> hop_count (?ns ! j)"
      and fs: "\<forall>j<r. node_id (?ns ! j) = dst \<and> is_active (?ns ! j) \<longrightarrow>
                     hop_count (?ns ! r) < hop_count (?ns ! j)"
      by simp_all
    have v: "mesh_find_route s dst = uint (next_hop (?ns ! r))"
      using Some by (simp add: mesh_find_route_def Let_def)
    from r have "\<exists>j<unat (node_count ?rt). node_id (?ns ! j) = dst \<and> is_active (?ns ! j) \<and>
                 hop_count (?ns ! j) < 255"
      by blast
    moreover from r v mn fs
    have "\<exists>r<unat (node_count ?rt). node_id (?ns ! r) = dst \<and> is_active (?ns ! r) \<and>
              mesh_find_route s dst = uint (next_hop (?ns ! r)) \<and>
              (\<forall>j<unat (node_count ?rt). node_id (?ns ! j) = dst \<and> is_active (?ns ! j) \<longrightarrow>
                     hop_count (?ns ! r) \<le> hop_count (?ns ! j)) \<and>
              (\<forall>j<r. node_id (?ns ! j) = dst \<and> is_active (?ns ! j) \<longrightarrow>
                     hop_count (?ns ! r) < hop_count (?ns ! j))"
      by blast
    ultimately show ?thesis
      by (simp add: Let_def)
  qed
qed

text \<open>
  C9 at a table the code builds itself. A beacon of node 5 whose header carries hop count
  254 gives node 1 an active entry for node 5 with hop count 255. \<^verbatim>\<open>mesh_find_route\<close> starts
  with \<^verbatim>\<open>min_hops = 255\<close> and selects a slot only when its hop count is strictly smaller, so
  it returns -1 for node 5 although the only matching active entry is there.
\<close>

theorem find_route_skips_hop_255:
  "unat (node_count (routing_table (mesh_update_routing_table node1 0 (beacon_of 5 254)))) = 1 \<and>
   node_id (nodes (routing_table (mesh_update_routing_table node1 0 (beacon_of 5 254))) ! 0) = 5 \<and>
   is_active (nodes (routing_table (mesh_update_routing_table node1 0 (beacon_of 5 254))) ! 0) \<and>
   hop_count (nodes (routing_table (mesh_update_routing_table node1 0 (beacon_of 5 254))) ! 0) = 255 \<and>
   next_hop (nodes (routing_table (mesh_update_routing_table node1 0 (beacon_of 5 254))) ! 0) = 0 \<and>
   mesh_find_route (mesh_update_routing_table node1 0 (beacon_of 5 254)) 5 = - 1"
  by code_simp

subsection \<open>Forwarding over the stored routes\<close>

text \<open>
  A packet that is not for this node, below the hop ceiling, and for whose destination
  the table holds an active entry with a hop count below 255 is forwarded, with the
  header as in \<open>route_packet_forward\<close>.
\<close>

lemma route_packet_forward_stored_route:
  assumes "dst_node pkt \<noteq> local_node_id (routing_table s)"
    and "unat (pkt_hop_count pkt) < MESH_MAX_HOPS"
    and "\<exists>j<unat (node_count (routing_table s)).
           node_id (nodes (routing_table s) ! j) = dst_node pkt \<and>
           is_active (nodes (routing_table s) ! j) \<and>
           hop_count (nodes (routing_table s) ! j) < 255"
  shows "fst (mesh_route_packet s pkt data) = True \<and>
         snd (snd (mesh_route_packet s pkt data)) =
           pkt\<lparr>pkt_hop_count := pkt_hop_count pkt + 1\<rparr> \<and>
         unat (pkt_hop_count (snd (snd (mesh_route_packet s pkt data)))) =
           unat (pkt_hop_count pkt) + 1 \<and>
         src_node (snd (snd (mesh_route_packet s pkt data))) = src_node pkt \<and>
         dst_node (snd (snd (mesh_route_packet s pkt data))) = dst_node pkt \<and>
         seq_num (snd (snd (mesh_route_packet s pkt data))) = seq_num pkt \<and>
         routing_table (fst (snd (mesh_route_packet s pkt data))) = routing_table s"
proof -
  from mesh_find_route_spec [of s "dst_node pkt"] assms(3)
  obtain r where "mesh_find_route s (dst_node pkt) = uint (next_hop (nodes (routing_table s) ! r))"
    by (auto simp: Let_def)
  then have "0 \<le> mesh_find_route s (dst_node pkt)" by simp
  with assms(1,2) show ?thesis by (rule route_packet_forward)
qed

text \<open>
  C7, at the table of the route lookup above. Node 1 holds an active entry for node 5
  with hop count 255. A
  packet from node 7 for node 5 with hop count 1 is not for node 1 and is below the hop
  ceiling, and an active route to node 5 is stored; \<^verbatim>\<open>mesh_route_packet\<close> returns false and
  hands the header back with hop count 1, because \<^verbatim>\<open>mesh_find_route\<close> returns -1.
\<close>

theorem route_packet_drops_hop_255_route:
  "dst_node (data_pkt 7 5 1) \<noteq>
     local_node_id (routing_table (mesh_update_routing_table node1 0 (beacon_of 5 254))) \<and>
   unat (pkt_hop_count (data_pkt 7 5 1)) < MESH_MAX_HOPS \<and>
   0 < unat (node_count (routing_table (mesh_update_routing_table node1 0 (beacon_of 5 254)))) \<and>
   node_id (nodes (routing_table (mesh_update_routing_table node1 0 (beacon_of 5 254))) ! 0) =
     dst_node (data_pkt 7 5 1) \<and>
   is_active (nodes (routing_table (mesh_update_routing_table node1 0 (beacon_of 5 254))) ! 0) \<and>
   mesh_route_packet (mesh_update_routing_table node1 0 (beacon_of 5 254)) (data_pkt 7 5 1)
       [1, 2, 3] =
     (False, mesh_update_routing_table node1 0 (beacon_of 5 254), data_pkt 7 5 1)"
  by code_simp

end
